theory Spec2Isabelle
  imports Complex_Main "HOL-Library.Word" "HOL-Library.Extended_Nat"
begin

section \<open>Shared types\<close>

text \<open>
  The shared package declares \<^verbatim>\<open>SpeakerId = "you" | "claude" | "guest"\<close> and
  \<^verbatim>\<open>OrbState = "idle" | "listening" | "thinking" | "speaking" | "muted" | "error"\<close>.
  JavaScript numbers are modelled as mathematical numbers (\<open>nat\<close>, \<open>int\<close>, \<open>real\<close>):
  the rounding of IEEE doubles is not modelled.
\<close>

datatype SpeakerId = You | Claude | Guest

datatype OrbState = OrbIdle | OrbListening | OrbThinking | OrbSpeaking | OrbMuted | OrbError

record CaptionPayload =
  cap_id :: string
  cap_speaker :: SpeakerId
  cap_text :: string
  cap_timestamp :: nat

datatype SharedScreenMode = ModeConversation | ModeThinking

record SharedScreenThinkingState =
  sst_speaker :: SpeakerId
  sst_durationMs :: nat
  sst_startedAt :: nat
  sst_endsAt :: nat

record SharedScreenState =
  mode :: SharedScreenMode
  thinking :: "SharedScreenThinkingState option"

record OrchestratorStateSnapshot =
  snap_orbStates :: "SpeakerId \<Rightarrow> OrbState"
  snap_captions :: "CaptionPayload list"
  snap_autopilot :: bool
  snap_sharedScreen :: SharedScreenState

section \<open>Orchestrator: caption history and snapshots (orchestrator-v2.ts)\<close>

definition MAX_CAPTION_HISTORY :: nat where
  "MAX_CAPTION_HISTORY = 20"

definition CAPTION_SNAPSHOT_LIMIT :: nat where
  "CAPTION_SNAPSHOT_LIMIT = 6"

text \<open>The fields of \<^verbatim>\<open>ProductionOrchestrator\<close> that a snapshot reads.\<close>

record Orchestrator =
  autopilot :: bool
  orbStates :: "SpeakerId \<Rightarrow> OrbState"
  captions :: "CaptionPayload list"
  sharedScreen :: SharedScreenState

definition newOrchestrator :: Orchestrator where
  "newOrchestrator =
     \<lparr> autopilot = False,
       orbStates = (\<lambda>_. OrbIdle),
       captions = [],
       sharedScreen = \<lparr> mode = ModeConversation, thinking = None \<rparr> \<rparr>"

text \<open>\<^verbatim>\<open>this.captions = [caption, ...this.captions].slice(0, MAX_CAPTION_HISTORY)\<close>\<close>

definition addCaption :: "CaptionPayload \<Rightarrow> Orchestrator \<Rightarrow> Orchestrator" where
  "addCaption caption st =
     st\<lparr> captions := take MAX_CAPTION_HISTORY (caption # captions st) \<rparr>"

text \<open>The state part of \<^verbatim>\<open>updateOrbState\<close>: \<^verbatim>\<open>this.orbStates[speaker] = state\<close>.\<close>

definition updateOrbState :: "SpeakerId \<Rightarrow> OrbState \<Rightarrow> Orchestrator \<Rightarrow> Orchestrator" where
  "updateOrbState speaker state st =
     (if orbStates st speaker = state then st
      else st\<lparr> orbStates := (orbStates st)(speaker := state) \<rparr>)"

definition snapshot :: "Orchestrator \<Rightarrow> OrchestratorStateSnapshot" where
  "snapshot st =
     \<lparr> snap_orbStates = orbStates st,
       snap_captions = take CAPTION_SNAPSHOT_LIMIT (captions st),
       snap_autopilot = autopilot st,
       snap_sharedScreen = sharedScreen st \<rparr>"

text \<open>
  The writes to the four fields, as the handlers make them: a finalized transcript builds
  a caption for speaker \<^verbatim>\<open>"you"\<close> (its id comes from \<^verbatim>\<open>randomUUID()\<close>, its timestamp from
  \<^verbatim>\<open>Date.now()\<close>; both are inputs here) and calls \<^verbatim>\<open>addCaption\<close>;
  \<^verbatim>\<open>client.toggle-autopilot\<close> stores the flag; \<^verbatim>\<open>updateOrbState\<close> writes one orb state;
  entering and leaving thinking mode assign \<^verbatim>\<open>this.sharedScreen\<close>.
\<close>

datatype OrchEvent =
    FinalTranscript string string nat
  | ToggleAutopilot bool
  | OrbUpdate SpeakerId OrbState
  | ScreenUpdate SharedScreenState

definition transcriptCaption :: "string \<Rightarrow> string \<Rightarrow> nat \<Rightarrow> CaptionPayload" where
  "transcriptCaption uuid tx now =
     \<lparr> cap_id = uuid, cap_speaker = You, cap_text = tx, cap_timestamp = now \<rparr>"

fun orchStep :: "Orchestrator \<Rightarrow> OrchEvent \<Rightarrow> Orchestrator" where
  "orchStep st (FinalTranscript uuid tx now) = addCaption (transcriptCaption uuid tx now) st"
| "orchStep st (ToggleAutopilot on) = st\<lparr> autopilot := on \<rparr>"
| "orchStep st (OrbUpdate speaker state) = updateOrbState speaker state st"
| "orchStep st (ScreenUpdate scr) = st\<lparr> sharedScreen := scr \<rparr>"

definition orchRun :: "OrchEvent list \<Rightarrow> Orchestrator" where
  "orchRun evs = foldl orchStep newOrchestrator evs"

text \<open>The captions of the finalized transcripts of a run, oldest first.\<close>

fun finalCaptions :: "OrchEvent list \<Rightarrow> CaptionPayload list" where
  "finalCaptions [] = []"
| "finalCaptions (FinalTranscript uuid tx now # evs) =
     transcriptCaption uuid tx now # finalCaptions evs"
| "finalCaptions (_ # evs) = finalCaptions evs"

section \<open>PCM buffers\<close>

text \<open>
  A Node \<^verbatim>\<open>Buffer\<close> is a list of bytes. \<^verbatim>\<open>readInt16LE\<close> reads a two's complement
  16-bit sample, low byte first, and throws a \<^verbatim>\<open>RangeError\<close> unless both bytes lie inside
  the buffer.
\<close>

type_synonym byte = "8 word"

datatype error = RangeError

definition int16LE :: "byte \<Rightarrow> byte \<Rightarrow> int" where
  "int16LE lo hi =
     (let u = uint lo + 256 * uint hi in if 32768 \<le> u then u - 65536 else u)"

definition readInt16LE :: "byte list \<Rightarrow> nat \<Rightarrow> error + int" where
  "readInt16LE buffer offset =
     (if offset + 1 < length buffer
      then Inr (int16LE (buffer ! offset) (buffer ! (offset + 1)))
      else Inl RangeError)"

section \<open>Enhanced VAD (vad-detector-enhanced.ts)\<close>

record VadDetectorEnhancedOptions =
  opt_sampleRate :: "real option"
  opt_frameDurationMs :: "real option"
  opt_speechThreshold :: "real option"
  opt_releaseThreshold :: "real option"
  opt_minSpeechMs :: "real option"
  opt_minSilenceMs :: "real option"
  opt_adaptiveThreshold :: "bool option"
  opt_noiseFloorAdaptationRate :: "real option"
  opt_confidenceEnabled :: "bool option"
  opt_spectralAnalysis :: "bool option"

text \<open>The \<^verbatim>\<open>readonly\<close> fields of the detector.\<close>

record VadConfig =
  sampleRate :: real
  frameSamples :: int
  minSpeechFrames :: enat
  minSilenceFrames :: enat
  adaptiveThreshold :: bool
  noiseFloorAdaptationRate :: real
  confidenceEnabled :: bool
  spectralAnalysis :: bool

text \<open>The mutable fields of the detector.\<close>

record VadState =
  speechThreshold :: real
  releaseThreshold :: real
  speechFrameCount :: nat
  silenceFrameCount :: nat
  speaking :: bool
  noiseFloor :: real
  energyHistory :: "real list"
  confidenceHistory :: "real list"
  currentConfidence :: real
  peakEnergy :: real

text \<open>
  The calls the detector makes to its callbacks, in order (each is made only when the
  callback was given in the options).
\<close>

datatype VadEvent = SpeechStart real | SpeechEnd real | ConfidenceUpdate real

definition maxHistoryFrames :: nat where
  "maxHistoryFrames = 50"

text \<open>
  \<^verbatim>\<open>Math.max(1, Math.floor(ms / frameDurationMs))\<close>. With a zero frame duration the
  quotient is \<^verbatim>\<open>Infinity\<close> (or \<^verbatim>\<open>NaN\<close> for \<^verbatim>\<open>0 / 0\<close>, which no counter ever reaches
  either) for a non-negative \<^verbatim>\<open>ms\<close>, and \<^verbatim>\<open>-Infinity\<close> for a negative one.
\<close>

definition minFrames :: "real \<Rightarrow> real \<Rightarrow> enat" where
  "minFrames ms frameDurationMs =
     (if frameDurationMs = 0 then (if ms < 0 then 1 else \<infinity>)
      else enat (nat (max 1 \<lfloor>ms / frameDurationMs\<rfloor>)))"

definition vadConfig :: "VadDetectorEnhancedOptions \<Rightarrow> VadConfig" where
  "vadConfig options =
     (let rate = (case opt_sampleRate options of None \<Rightarrow> 48000 | Some r \<Rightarrow> r);
          frameDurationMs = (case opt_frameDurationMs options of None \<Rightarrow> 20 | Some f \<Rightarrow> f);
          minSpeechMs = (case opt_minSpeechMs options of None \<Rightarrow> 120 | Some m \<Rightarrow> m);
          minSilenceMs = (case opt_minSilenceMs options of None \<Rightarrow> 220 | Some m \<Rightarrow> m)
      in \<lparr> sampleRate = rate,
           frameSamples = \<lfloor>(rate / 1000) * frameDurationMs\<rfloor>,
           minSpeechFrames = minFrames minSpeechMs frameDurationMs,
           minSilenceFrames = minFrames minSilenceMs frameDurationMs,
           adaptiveThreshold =
             (case opt_adaptiveThreshold options of None \<Rightarrow> True | Some b \<Rightarrow> b),
           noiseFloorAdaptationRate =
             (case opt_noiseFloorAdaptationRate options of None \<Rightarrow> 0.01 | Some r \<Rightarrow> r),
           confidenceEnabled =
             (case opt_confidenceEnabled options of None \<Rightarrow> True | Some b \<Rightarrow> b),
           spectralAnalysis =
             (case opt_spectralAnalysis options of None \<Rightarrow> True | Some b \<Rightarrow> b) \<rparr>)"

definition vadInit :: "VadDetectorEnhancedOptions \<Rightarrow> VadState" where
  "vadInit options =
     \<lparr> speechThreshold =
         (case opt_speechThreshold options of None \<Rightarrow> 0.015 | Some t \<Rightarrow> t),
       releaseThreshold =
         (case opt_releaseThreshold options of None \<Rightarrow> 0.008 | Some t \<Rightarrow> t),
       speechFrameCount = 0,
       silenceFrameCount = 0,
       speaking = False,
       noiseFloor = 0.001,
       energyHistory = [],
       confidenceHistory = [],
       currentConfidence = 0,
       peakEnergy = 0 \<rparr>"

definition defaultVadOptions :: VadDetectorEnhancedOptions where
  "defaultVadOptions =
     \<lparr> opt_sampleRate = None, opt_frameDurationMs = None, opt_speechThreshold = None,
       opt_releaseThreshold = None, opt_minSpeechMs = None, opt_minSilenceMs = None,
       opt_adaptiveThreshold = None, opt_noiseFloorAdaptationRate = None,
       opt_confidenceEnabled = None, opt_spectralAnalysis = None \<rparr>"

text \<open>
  \<^verbatim>\<open>computeRms\<close>: the loop over the samples of the frame, which stops early at the end of the
  buffer; the first argument counts the iterations left.
\<close>

fun energyLoop :: "nat \<Rightarrow> byte list \<Rightarrow> nat \<Rightarrow> nat \<Rightarrow> real \<Rightarrow> real" where
  "energyLoop 0 buffer startByte i energy = energy"
| "energyLoop (Suc n) buffer startByte i energy =
     (let byteIndex = startByte + i * 2 in
      if length buffer \<le> byteIndex + 1 then energy
      else
        (let sample = int16LE (buffer ! byteIndex) (buffer ! (byteIndex + 1));
             normalized = real_of_int sample / 32768
         in energyLoop n buffer startByte (i + 1) (energy + normalized * normalized)))"

definition computeRms :: "byte list \<Rightarrow> nat \<Rightarrow> nat \<Rightarrow> real" where
  "computeRms buffer startSample frameSize =
     (let energy = energyLoop frameSize buffer (startSample * 2) 0 0;
          meanSquare = energy / real frameSize
      in sqrt meanSquare)"

text \<open>\<^verbatim>\<open>history.push(x); if (history.length > maxHistoryFrames) history.shift()\<close>\<close>

definition pushHistory :: "real list \<Rightarrow> real \<Rightarrow> real list" where
  "pushHistory history x =
     (let h = history @ [x] in if maxHistoryFrames < length h then tl h else h)"

text \<open>\<^verbatim>\<open>history.slice(-10)\<close>\<close>

definition recent10 :: "real list \<Rightarrow> real list" where
  "recent10 history = drop (length history - 10) history"

definition updateNoiseFloor :: "VadConfig \<Rightarrow> VadState \<Rightarrow> real \<Rightarrow> VadState" where
  "updateNoiseFloor cfg st rms =
     (if \<not> speaking st \<and> rms < speechThreshold st then
        (let nf = noiseFloor st * (1 - noiseFloorAdaptationRate cfg)
                  + rms * noiseFloorAdaptationRate cfg
         in st\<lparr> noiseFloor := max 0.0001 (min 0.1 nf) \<rparr>)
      else st)"

text \<open>
  \<^verbatim>\<open>computeEnergyConfidence\<close>. For a zero mean energy \<^verbatim>\<open>Math.log10(0)\<close> is \<^verbatim>\<open>-Infinity\<close>
  and the clamp gives 0. (The energies are square roots, so the ratio is never negative.)
\<close>

definition computeEnergyConfidence :: "VadState \<Rightarrow> real" where
  "computeEnergyConfidence st =
     (if energyHistory st = [] then 0
      else
        (let recentEnergy = recent10 (energyHistory st);
             avgEnergy = sum_list recentEnergy / real (length recentEnergy);
             snr = avgEnergy / max (noiseFloor st) 0.0001
         in if snr \<le> 0 then 0
            else (let snrDb = 20 * log 10 snr in max 0 (min 1 ((snrDb - 5) / 15)))))"

definition computeConsistencyConfidence :: "VadState \<Rightarrow> real" where
  "computeConsistencyConfidence st =
     (if length (energyHistory st) < 5 then 0.5
      else
        (let recentEnergy = recent10 (energyHistory st);
             mean = sum_list recentEnergy / real (length recentEnergy);
             variance = sum_list (map (\<lambda>val. (val - mean)\<^sup>2) recentEnergy)
                        / real (length recentEnergy);
             stdDev = sqrt variance;
             coefficientOfVariation = (if 0 < mean then stdDev / mean else 1)
         in max 0 (min 1 (1.0 - (coefficientOfVariation - 0.3) / 0.7))))"

definition computeSpectralConfidence :: "VadState \<Rightarrow> real" where
  "computeSpectralConfidence st = 0.7"

definition updateConfidence :: "VadConfig \<Rightarrow> VadState \<Rightarrow> real \<Rightarrow> VadState" where
  "updateConfidence cfg st rms =
     (let energyConf = computeEnergyConfidence st;
          consistencyConf = computeConsistencyConfidence st;
          spectralConf = (if spectralAnalysis cfg then computeSpectralConfidence st else 0.5);
          rawConfidence = energyConf * 0.4 + consistencyConf * 0.4 + spectralConf * 0.2;
          smoothingFactor = 0.15;
          conf = currentConfidence st * (1 - smoothingFactor) + rawConfidence * smoothingFactor
      in st\<lparr> currentConfidence := conf,
             confidenceHistory := pushHistory (confidenceHistory st) conf \<rparr>)"

text \<open>
  \<^verbatim>\<open>processFrame\<close>, block by block. First the energy history and the peak tracker.
\<close>

definition trackEnergy :: "VadState \<Rightarrow> real \<Rightarrow> VadState" where
  "trackEnergy st rms =
     st\<lparr> energyHistory := pushHistory (energyHistory st) rms,
         peakEnergy := max (peakEnergy st * 0.999) rms \<rparr>"

text \<open>Adaptive noise floor estimation and the thresholds derived from it.\<close>

definition adaptThresholds :: "VadConfig \<Rightarrow> VadState \<Rightarrow> real \<Rightarrow> VadState" where
  "adaptThresholds cfg st rms =
     (if adaptiveThreshold cfg then
        (let s = updateNoiseFloor cfg st rms;
             noiseMargin = 2.5
         in s\<lparr> speechThreshold := noiseFloor s * noiseMargin,
               releaseThreshold := noiseFloor s * (noiseMargin * 0.6) \<rparr>)
      else st)"

definition scoreConfidence :: "VadConfig \<Rightarrow> VadState \<Rightarrow> real \<Rightarrow> VadState" where
  "scoreConfidence cfg st rms =
     (if confidenceEnabled cfg then updateConfidence cfg st rms else st)"

definition effectiveThreshold :: "VadConfig \<Rightarrow> VadState \<Rightarrow> real" where
  "effectiveThreshold cfg st =
     (if confidenceEnabled cfg
      then speechThreshold st * (1.0 - currentConfidence st * 0.3)
      else speechThreshold st)"

text \<open>
  The frame's RMS, the state after the three updates, and the effective speech threshold
  against which the RMS is then compared.
\<close>

definition frameLevels ::
  "VadConfig \<Rightarrow> VadState \<Rightarrow> byte list \<Rightarrow> nat \<Rightarrow> nat \<Rightarrow> real \<times> VadState \<times> real" where
  "frameLevels cfg st buffer offset frameSize =
     (let rms = computeRms buffer offset frameSize;
          st4 = scoreConfidence cfg (adaptThresholds cfg (trackEnergy st rms) rms) rms
      in (rms, st4, effectiveThreshold cfg st4))"

text \<open>Speech detection with confidence gating.\<close>

definition detectSpeech ::
  "VadConfig \<Rightarrow> VadState \<Rightarrow> real \<Rightarrow> real \<Rightarrow> VadState \<times> VadEvent list" where
  "detectSpeech cfg st rms eff =
     (if eff \<le> rms then
        (let s = st\<lparr> speechFrameCount := speechFrameCount st + 1, silenceFrameCount := 0 \<rparr>
         in if \<not> speaking s \<and> minSpeechFrames cfg \<le> enat (speechFrameCount s) then
              (if \<not> confidenceEnabled cfg \<or> 0.4 \<le> currentConfidence s then
                 (s\<lparr> speaking := True \<rparr>,
                  [SpeechStart (if confidenceEnabled cfg then currentConfidence s else 0.8)])
               else (s, []))
            else (s, []))
      else if rms \<le> releaseThreshold st then
        (if speaking st then
           (let s = st\<lparr> silenceFrameCount := silenceFrameCount st + 1 \<rparr>
            in if minSilenceFrames cfg \<le> enat (silenceFrameCount s) then
                 (s\<lparr> speaking := False, speechFrameCount := 0, silenceFrameCount := 0,
                     currentConfidence := currentConfidence s * 0.5 \<rparr>,
                  [SpeechEnd (if confidenceEnabled cfg then currentConfidence s else 0.8)])
               else (s, []))
         else (st\<lparr> speechFrameCount := 0 \<rparr>, []))
      else (st\<lparr> speechFrameCount := speechFrameCount st - 1 \<rparr>, []))"

definition processFrame ::
  "VadConfig \<Rightarrow> VadState \<Rightarrow> byte list \<Rightarrow> nat \<Rightarrow> nat \<Rightarrow> VadState \<times> VadEvent list" where
  "processFrame cfg st buffer offset frameSize =
     (case frameLevels cfg st buffer offset frameSize of
        (rms, st4, eff) \<Rightarrow>
          (case detectSpeech cfg st4 rms eff of
             (st5, evs) \<Rightarrow>
               (st5, evs @ (if confidenceEnabled cfg
                            then [ConfidenceUpdate (currentConfidence st5)] else []))))"

text \<open>
  The loop of \<^verbatim>\<open>processAudio\<close> over the frames of an even-length buffer:
  \<^verbatim>\<open>for (offset = 0; offset < sampleCount; offset += frameSamples)\<close>, left by \<^verbatim>\<open>break\<close>
  when the frame size is not positive.
\<close>

function frameLoop ::
  "VadConfig \<Rightarrow> VadState \<Rightarrow> byte list \<Rightarrow> nat \<Rightarrow> VadState \<times> VadEvent list" where
  "frameLoop cfg st buffer offset =
     (let sampleCount = length buffer div 2 in
      if offset < sampleCount then
        (let frameSize = min (frameSamples cfg) (int sampleCount - int offset) in
         if frameSize \<le> 0 then (st, [])
         else
           (case processFrame cfg st buffer offset (nat frameSize) of
              (st', evs) \<Rightarrow>
                (case frameLoop cfg st' buffer (offset + nat (frameSamples cfg)) of
                   (st'', evs') \<Rightarrow> (st'', evs @ evs'))))
      else (st, []))"
  by pat_completeness auto
termination
  by (relation "measure (\<lambda>(cfg, st, buffer, offset). length buffer div 2 - offset)") auto

declare frameLoop.simps [simp del]

definition processAudio :: "VadConfig \<Rightarrow> VadState \<Rightarrow> byte list \<Rightarrow> VadState \<times> VadEvent list" where
  "processAudio cfg st buffer =
     (if length buffer = 0 then (st, [])
      else if odd (length buffer) then (st, [])
      else frameLoop cfg st buffer 0)"

text \<open>Feeding a sequence of chunks to the detector.\<close>

fun processChunks :: "VadConfig \<Rightarrow> VadState \<Rightarrow> byte list list \<Rightarrow> VadState" where
  "processChunks cfg st [] = st"
| "processChunks cfg st (b # bs) = processChunks cfg (fst (processAudio cfg st b)) bs"

text \<open>
  The frames of a run, for stating what holds after each of them. The loop of
  \<^verbatim>\<open>processAudio\<close> visits the frames \<open>framesOf cfg buffer 0\<close> of a chunk (offset and size,
  in samples): they depend on the chunk's length only.
\<close>

function framesOf :: "VadConfig \<Rightarrow> byte list \<Rightarrow> nat \<Rightarrow> (nat \<times> nat) list" where
  "framesOf cfg buffer offset =
     (let sampleCount = length buffer div 2 in
      if offset < sampleCount then
        (let frameSize = min (frameSamples cfg) (int sampleCount - int offset) in
         if frameSize \<le> 0 then []
         else (offset, nat frameSize) # framesOf cfg buffer (offset + nat (frameSamples cfg)))
      else [])"
  by pat_completeness auto
termination
  by (relation "measure (\<lambda>(cfg, buffer, offset). length buffer div 2 - offset)") auto

declare framesOf.simps [simp del]

definition chunkFrames :: "VadConfig \<Rightarrow> byte list \<Rightarrow> (byte list \<times> nat \<times> nat) list" where
  "chunkFrames cfg buffer =
     (if length buffer = 0 \<or> odd (length buffer) then []
      else map (\<lambda>(offset, frameSize). (buffer, offset, frameSize)) (framesOf cfg buffer 0))"

text \<open>
  A frame qualifies as speech when its RMS is at or above the effective threshold: the
  test \<^verbatim>\<open>rms >= effectiveThreshold\<close> of \<^verbatim>\<open>processFrame\<close>.
\<close>

definition qualifies :: "VadConfig \<Rightarrow> VadState \<Rightarrow> byte list \<Rightarrow> nat \<Rightarrow> nat \<Rightarrow> bool" where
  "qualifies cfg st buffer offset frameSize =
     (case frameLevels cfg st buffer offset frameSize of (rms, st4, eff) \<Rightarrow> eff \<le> rms)"

text \<open>
  Processing a sequence of frames: for each frame, whether it qualified and the state after
  it.
\<close>

fun vadTrace ::
  "VadConfig \<Rightarrow> VadState \<Rightarrow> (byte list \<times> nat \<times> nat) list \<Rightarrow> (bool \<times> VadState) list" where
  "vadTrace cfg st [] = []"
| "vadTrace cfg st ((buffer, offset, frameSize) # frames) =
     (let st' = fst (processFrame cfg st buffer offset frameSize)
      in (qualifies cfg st buffer offset frameSize, st') # vadTrace cfg st' frames)"

definition lastState :: "VadState \<Rightarrow> (bool \<times> VadState) list \<Rightarrow> VadState" where
  "lastState st tr = (if tr = [] then st else snd (last tr))"

text \<open>The invariants of the detector's state.\<close>

definition vadInv :: "VadState \<Rightarrow> bool" where
  "vadInv st =
     (releaseThreshold st < speechThreshold st
      \<and> 0.0001 \<le> noiseFloor st \<and> noiseFloor st \<le> 0.1
      \<and> 0 \<le> currentConfidence st \<and> currentConfidence st \<le> 1)"

subsection \<open>A run with an intermediate frame between qualifying frames\<close>





section \<open>Audio processor (audio-processor.ts) and the orchestrator's static gain\<close>

datatype DuckingProfile = Soft | Medium | Hard | Custom

datatype DuckingCurve = Linear | Exponential | Logarithmic

text \<open>
  The processor's configuration after the constructor has merged the given options over
  its defaults: the sample rate and \<^verbatim>\<open>Required<DuckingConfig>\<close>.
\<close>

record AudioProcessorConfig =
  ap_sampleRate :: real
  profile :: DuckingProfile
  reductionDb :: real
  rampUpMs :: real
  rampDownMs :: real
  curve :: DuckingCurve
  preDuckingMs :: real

definition defaultAudioConfig :: AudioProcessorConfig where
  "defaultAudioConfig =
     \<lparr> ap_sampleRate = 48000, profile = Medium, reductionDb = -12, rampUpMs = 50,
       rampDownMs = 150, curve = Exponential, preDuckingMs = 0 \<rparr>"

record GainRampState =
  active :: bool
  startGain :: real
  targetGain :: real
  currentGain :: real
  rampSamples :: int
  elapsedSamples :: nat
  rampCurve :: DuckingCurve

definition newAudioProcessor :: "AudioProcessorConfig \<Rightarrow> GainRampState" where
  "newAudioProcessor cfg =
     \<lparr> active = False, startGain = 1.0, targetGain = 1.0, currentGain = 1.0,
       rampSamples = 0, elapsedSamples = 0, rampCurve = curve cfg \<rparr>"

text \<open>\<^verbatim>\<open>DUCKING_PROFILES\<close> and \<^verbatim>\<open>getDuckingReduction\<close>.\<close>

definition getDuckingReduction :: "AudioProcessorConfig \<Rightarrow> real" where
  "getDuckingReduction cfg =
     (case profile cfg of
        Custom \<Rightarrow> reductionDb cfg
      | Soft \<Rightarrow> -6
      | Medium \<Rightarrow> -12
      | Hard \<Rightarrow> -18)"

text \<open>\<^verbatim>\<open>Math.pow(10, db / 20)\<close>\<close>

definition dbToGain :: "real \<Rightarrow> real" where
  "dbToGain db = 10 powr (db / 20)"

definition startDucking :: "AudioProcessorConfig \<Rightarrow> bool \<Rightarrow> GainRampState \<Rightarrow> GainRampState" where
  "startDucking cfg immediate st =
     (let reduction = getDuckingReduction cfg;
          target = dbToGain reduction
      in if immediate then
           \<lparr> active = False, startGain = target, targetGain = target, currentGain = target,
             rampSamples = 0, elapsedSamples = 0, rampCurve = curve cfg \<rparr>
         else
           \<lparr> active = True, startGain = currentGain st, targetGain = target,
             currentGain = currentGain st,
             rampSamples = \<lfloor>(ap_sampleRate cfg / 1000) * rampUpMs cfg\<rfloor>,
             elapsedSamples = 0, rampCurve = curve cfg \<rparr>)"

definition stopDucking :: "AudioProcessorConfig \<Rightarrow> bool \<Rightarrow> GainRampState \<Rightarrow> GainRampState" where
  "stopDucking cfg immediate st =
     (let target = 1.0
      in if immediate then
           \<lparr> active = False, startGain = target, targetGain = target, currentGain = target,
             rampSamples = 0, elapsedSamples = 0, rampCurve = curve cfg \<rparr>
         else
           \<lparr> active = True, startGain = currentGain st, targetGain = target,
             currentGain = currentGain st,
             rampSamples = \<lfloor>(ap_sampleRate cfg / 1000) * rampDownMs cfg\<rfloor>,
             elapsedSamples = 0, rampCurve = curve cfg \<rparr>)"

text \<open>
  \<^verbatim>\<open>computeRampGain\<close>. The progress is \<^verbatim>\<open>elapsedSamples / rampSamples\<close>; a ramp of zero
  samples is active only before its first sample, where the quotient is \<^verbatim>\<open>0 / 0\<close>, that is
  \<^verbatim>\<open>NaN\<close>, and so is the gain: \<open>None\<close> stands for \<^verbatim>\<open>NaN\<close>.
\<close>

definition curveProgress :: "DuckingCurve \<Rightarrow> real \<Rightarrow> real" where
  "curveProgress c progress =
     (case c of
        Linear \<Rightarrow> progress
      | Exponential \<Rightarrow> progress * progress
      | Logarithmic \<Rightarrow> 1 - (1 - progress)\<^sup>2)"

definition computeRampGain :: "GainRampState \<Rightarrow> real option" where
  "computeRampGain st =
     (if rampSamples st = 0 then None
      else
        (let progress = real (elapsedSamples st) / real_of_int (rampSamples st);
             curvedProgress = curveProgress (rampCurve st) progress
         in Some (startGain st + (targetGain st - startGain st) * curvedProgress)))"

text \<open>
  \<^verbatim>\<open>Math.round\<close> rounds to the nearest integer, a tie upwards; the clamp is
  \<^verbatim>\<open>Math.max(-32768, Math.min(32767, scaled))\<close>.
\<close>

definition jsRound :: "real \<Rightarrow> int" where
  "jsRound x = \<lfloor>x + 1 / 2\<rfloor>"

definition clamp16 :: "int \<Rightarrow> int" where
  "clamp16 v = max (-32768) (min 32767 v)"

text \<open>\<^verbatim>\<open>writeInt16LE\<close> of a value in range: the low byte, then the high byte.\<close>

definition writeInt16LE :: "int \<Rightarrow> byte list" where
  "writeInt16LE v = [word_of_int v, word_of_int (v div 256)]"

text \<open>
  The scaled sample of one iteration. With a \<^verbatim>\<open>NaN\<close> gain the product, its rounding and the
  clamp are \<^verbatim>\<open>NaN\<close>, which \<^verbatim>\<open>writeInt16LE\<close> accepts (no comparison with \<^verbatim>\<open>NaN\<close> holds) and
  stores as two zero bytes.
\<close>

definition scaleSample :: "int \<Rightarrow> real option \<Rightarrow> int" where
  "scaleSample sample gain =
     (case gain of
        None \<Rightarrow> 0
      | Some g \<Rightarrow> clamp16 (jsRound (real_of_int sample * g)))"

text \<open>
  The gain of one iteration of the loop of \<^verbatim>\<open>processBuffer\<close> and the ramp state after it.
  When the ramp goes on (\<^verbatim>\<open>elapsedSamples < rampSamples\<close> after the increment) it has at least
  two samples, so the gain stored there is a number.
\<close>

definition advanceRamp :: "GainRampState \<Rightarrow> real option \<times> GainRampState" where
  "advanceRamp st =
     (if active st then
        (let gain = computeRampGain st;
             st1 = st\<lparr> elapsedSamples := elapsedSamples st + 1 \<rparr>
         in if rampSamples st1 \<le> int (elapsedSamples st1)
            then (gain, st1\<lparr> active := False, currentGain := targetGain st1 \<rparr>)
            else (gain, st1\<lparr> currentGain := (case gain of Some g \<Rightarrow> g
                                                  | None \<Rightarrow> currentGain st1) \<rparr>))
      else (Some (currentGain st), st))"

text \<open>
  The loop of \<^verbatim>\<open>processBuffer\<close>, on the bytes from offset \<open>2 i\<close> on: iteration \<open>i\<close> runs
  while \<^verbatim>\<open>i < buffer.length / 2\<close>, that is while a byte is left, and reads the sample there
  with \<^verbatim>\<open>readInt16LE\<close>, which throws on a last single byte. The ramp state is an object
  field: what the iterations before the throw did to it stays.
\<close>

fun sampleLoop :: "GainRampState \<Rightarrow> byte list \<Rightarrow> (error + byte list) \<times> GainRampState" where
  "sampleLoop st [] = (Inr [], st)"
| "sampleLoop st (b # bs) =
     (case readInt16LE (b # bs) 0 of
        Inl e \<Rightarrow> (Inl e, st)
      | Inr sample \<Rightarrow>
          (case advanceRamp st of
             (gain, st') \<Rightarrow>
               (case sampleLoop st' (drop 1 bs) of
                  (Inl e, st'') \<Rightarrow> (Inl e, st'')
                | (Inr out, st'') \<Rightarrow>
                    (Inr (writeInt16LE (scaleSample sample gain) @ out), st''))))"

declare sampleLoop.simps(2) [simp del]

definition processBuffer :: "GainRampState \<Rightarrow> byte list \<Rightarrow> (error + byte list) \<times> GainRampState" where
  "processBuffer st buffer =
     (if \<not> active st \<and> currentGain st = 1.0 then (Inr buffer, st)
      else sampleLoop st buffer)"

text \<open>The gain sample by sample, as \<^verbatim>\<open>processBuffer\<close> computes it, for stating its result.\<close>

fun gainsFrom :: "GainRampState \<Rightarrow> nat \<Rightarrow> real option list" where
  "gainsFrom st 0 = []"
| "gainsFrom st (Suc n) = (case advanceRamp st of (gain, st') \<Rightarrow> gain # gainsFrom st' n)"

text \<open>The 16-bit samples of an even-length buffer.\<close>

fun samplesOf :: "byte list \<Rightarrow> int list" where
  "samplesOf (lo # hi # rest) = int16LE lo hi # samplesOf rest"
| "samplesOf _ = []"

text \<open>
  \<^verbatim>\<open>ProductionOrchestrator.applyGain\<close>: the loop steps two bytes at a time and copies a last
  single byte.
\<close>

fun applyGain :: "byte list \<Rightarrow> real \<Rightarrow> byte list" where
  "applyGain [] gain = []"
| "applyGain [b] gain = [b]"
| "applyGain (lo # hi # rest) gain =
     writeInt16LE (clamp16 (jsRound (real_of_int (int16LE lo hi) * gain))) @ applyGain rest gain"

text \<open>A processor driven by a sequence of calls.\<close>

datatype AudioCall = StartDucking bool | StopDucking bool | ProcessBuffer "byte list"

fun audioCall :: "AudioProcessorConfig \<Rightarrow> GainRampState \<Rightarrow> AudioCall \<Rightarrow> GainRampState" where
  "audioCall cfg st (StartDucking immediate) = startDucking cfg immediate st"
| "audioCall cfg st (StopDucking immediate) = stopDucking cfg immediate st"
| "audioCall cfg st (ProcessBuffer buffer) = snd (processBuffer st buffer)"

definition audioCalls :: "AudioProcessorConfig \<Rightarrow> AudioCall list \<Rightarrow> GainRampState" where
  "audioCalls cfg calls = foldl (audioCall cfg) (newAudioProcessor cfg) calls"

text \<open>The invariants of the gain ramp.\<close>

definition rampInv :: "GainRampState \<Rightarrow> bool" where
  "rampInv st =
     (0 \<le> currentGain st \<and> currentGain st \<le> 1
      \<and> (if active st then int (elapsedSamples st) \<le> rampSamples st
          else currentGain st = targetGain st))"

text \<open>The start and target gains of a ramp lie in [0, 1] as well.\<close>

definition gainsInRange :: "GainRampState \<Rightarrow> bool" where
  "gainsInRange st =
     (0 \<le> startGain st \<and> startGain st \<le> 1 \<and> 0 \<le> targetGain st \<and> targetGain st \<le> 1)"

text \<open>A custom profile with a positive \<^verbatim>\<open>reductionDb\<close>.\<close>

definition boostConfig :: AudioProcessorConfig where
  "boostConfig = defaultAudioConfig\<lparr> profile := Custom, reductionDb := 20 \<rparr>"

section \<open>Barge-in manager (barge-in-manager.ts)\<close>

datatype BargeInMode = Immediate | Graceful | SentenceComplete | Disabled

datatype BargeInPriority = PriorityLow | PriorityMedium | PriorityHigh

record BargeInConfig =
  bargeInMode :: BargeInMode
  gracePeriodMs :: nat
  sentenceCompletionMaxMs :: nat
  duckingEnabled :: bool
  duckingLeadTimeMs :: nat

definition defaultBargeInConfig :: BargeInConfig where
  "defaultBargeInConfig =
     \<lparr> bargeInMode = Graceful, gracePeriodMs = 300, sentenceCompletionMaxMs = 2000,
       duckingEnabled = True, duckingLeadTimeMs = 150 \<rparr>"

datatype BargeInEventType = BargeInStart | BargeInComplete | BargeInCancelled

record BargeInEvent =
  ev_type :: BargeInEventType
  ev_timestamp :: nat
  ev_interrupter :: SpeakerId
  ev_interrupted :: "SpeakerId list"
  ev_mode :: BargeInMode
  ev_confidence :: real
  ev_gracePeriodUsed :: bool
  ev_duckingApplied :: bool

record SpeakerState =
  sp_speaking :: bool
  sp_priority :: BargeInPriority
  sp_startedAt :: "nat option"
  sp_lastActivityAt :: "nat option"
  sp_allowInterruption :: bool

record PendingBargeIn =
  pb_interrupter :: SpeakerId
  pb_confidence :: real
  pb_scheduledAt :: nat

text \<open>The calls the manager makes to the callbacks it was given.\<close>

datatype BargeInCall =
    OnBargeInStart SpeakerId "SpeakerId list"
  | OnBargeInComplete SpeakerId "SpeakerId list"
  | OnBargeInCancelled
  | OnDuckingRequest "SpeakerId list" bool

text \<open>
  What a grace timer's callback has captured: the interrupter, the targets and the
  confidence; and the delay it was scheduled with.
\<close>

record GraceTimer =
  gt_delayMs :: nat
  gt_interrupter :: SpeakerId
  gt_targets :: "SpeakerId list"
  gt_confidence :: real

text \<open>
  The manager's fields, and with them the two things it acts on: the timers it has
  scheduled that have neither fired nor been cleared (\<^verbatim>\<open>setTimeout\<close> returns a fresh handle,
  \<^verbatim>\<open>clearTimeout\<close> removes the timer), and the calls it has made to its callbacks, oldest
  first. \<^verbatim>\<open>Date.now()\<close> is an argument of every operation.
\<close>

record BargeInManager =
  config :: BargeInConfig
  speakerStates :: "SpeakerId \<Rightarrow> SpeakerState"
  graceTimer :: "nat option"
  pendingBargeIn :: "PendingBargeIn option"
  bargeInHistory :: "BargeInEvent list"
  scheduled :: "(nat \<times> GraceTimer) list"
  nextHandle :: nat
  callbackCalls :: "BargeInCall list"

definition maxHistorySize :: nat where
  "maxHistorySize = 100"

definition newBargeInManager :: "BargeInConfig \<Rightarrow> BargeInManager" where
  "newBargeInManager cfg =
     \<lparr> config = cfg,
       speakerStates = (\<lambda>_. \<lparr> sp_speaking = False, sp_priority = PriorityMedium,
          sp_startedAt = None, sp_lastActivityAt = None, sp_allowInterruption = True \<rparr>),
       graceTimer = None, pendingBargeIn = None, bargeInHistory = [],
       scheduled = [], nextHandle = 0, callbackCalls = [] \<rparr>"

definition setSpeakerPriority :: "SpeakerId \<Rightarrow> BargeInPriority \<Rightarrow> BargeInManager \<Rightarrow> BargeInManager" where
  "setSpeakerPriority speaker priority m =
     m\<lparr> speakerStates := (speakerStates m)
          (speaker := (speakerStates m speaker)\<lparr> sp_priority := priority \<rparr>) \<rparr>"

definition setAllowInterruption :: "SpeakerId \<Rightarrow> bool \<Rightarrow> BargeInManager \<Rightarrow> BargeInManager" where
  "setAllowInterruption speaker allow m =
     m\<lparr> speakerStates := (speakerStates m)
          (speaker := (speakerStates m speaker)\<lparr> sp_allowInterruption := allow \<rparr>) \<rparr>"

text \<open>The map of speaker states was filled in the order you, claude, guest.\<close>

definition getActiveSpeakers :: "BargeInManager \<Rightarrow> SpeakerId list" where
  "getActiveSpeakers m = filter (\<lambda>s. sp_speaking (speakerStates m s)) [You, Claude, Guest]"

definition getPriorityLevel :: "BargeInManager \<Rightarrow> SpeakerId \<Rightarrow> nat" where
  "getPriorityLevel m speaker =
     (if speaker = You then 100
      else (case sp_priority (speakerStates m speaker) of
              PriorityHigh \<Rightarrow> 75
            | PriorityMedium \<Rightarrow> 50
            | PriorityLow \<Rightarrow> 25))"

text \<open>
  \<^verbatim>\<open>logEvent\<close> appends to the history and drops the oldest event beyond 100. (It also
  passes completed barge-ins to the optional event logger, which is not part of the
  manager's state.)
\<close>

definition logEvent :: "BargeInEvent \<Rightarrow> BargeInManager \<Rightarrow> BargeInManager" where
  "logEvent event m =
     (let h = bargeInHistory m @ [event]
      in m\<lparr> bargeInHistory := (if maxHistorySize < length h then tl h else h) \<rparr>)"

definition invoke :: "BargeInCall \<Rightarrow> BargeInManager \<Rightarrow> BargeInManager" where
  "invoke c m = m\<lparr> callbackCalls := callbackCalls m @ [c] \<rparr>"

definition clearTimeout :: "nat \<Rightarrow> BargeInManager \<Rightarrow> BargeInManager" where
  "clearTimeout h m = m\<lparr> scheduled := filter (\<lambda>(h', t). h' \<noteq> h) (scheduled m) \<rparr>"

definition setTimeout :: "GraceTimer \<Rightarrow> BargeInManager \<Rightarrow> BargeInManager" where
  "setTimeout t m =
     m\<lparr> scheduled := scheduled m @ [(nextHandle m, t)],
        graceTimer := Some (nextHandle m),
        nextHandle := nextHandle m + 1 \<rparr>"

definition executeBargeIn ::
  "nat \<Rightarrow> SpeakerId \<Rightarrow> SpeakerId list \<Rightarrow> real \<Rightarrow> bool \<Rightarrow> BargeInManager \<Rightarrow> BargeInManager" where
  "executeBargeIn now interrupter interrupted confidence gracePeriodUsed m =
     (let event = \<lparr> ev_type = BargeInStart, ev_timestamp = now, ev_interrupter = interrupter,
            ev_interrupted = interrupted, ev_mode = bargeInMode (config m),
            ev_confidence = confidence, ev_gracePeriodUsed = gracePeriodUsed,
            ev_duckingApplied = duckingEnabled (config m) \<rparr>;
          m1 = invoke (OnBargeInStart interrupter interrupted) (logEvent event m);
          m2 = m1\<lparr> speakerStates := (\<lambda>s. if s \<in> set interrupted
                  then (speakerStates m1 s)\<lparr> sp_speaking := False \<rparr>
                  else speakerStates m1 s) \<rparr>;
          completeEvent = event\<lparr> ev_type := BargeInComplete, ev_timestamp := now \<rparr>;
          m3 = invoke (OnBargeInComplete interrupter interrupted) (logEvent completeEvent m2)
      in m3\<lparr> pendingBargeIn := None \<rparr>)"

definition cancelBargeIn :: "nat \<Rightarrow> BargeInManager \<Rightarrow> BargeInManager" where
  "cancelBargeIn now m =
     (let m1 = (case graceTimer m of
                  Some h \<Rightarrow> (clearTimeout h m)\<lparr> graceTimer := None \<rparr>
                | None \<Rightarrow> m);
          m2 = (case pendingBargeIn m1 of
                  Some p \<Rightarrow>
                    invoke OnBargeInCancelled
                      (logEvent \<lparr> ev_type = BargeInCancelled, ev_timestamp = now,
                          ev_interrupter = pb_interrupter p, ev_interrupted = [],
                          ev_mode = bargeInMode (config m1), ev_confidence = pb_confidence p,
                          ev_gracePeriodUsed = False, ev_duckingApplied = False \<rparr> m1)
                | None \<Rightarrow> m1)
      in m2\<lparr> pendingBargeIn := None \<rparr>)"

text \<open>
  \<^verbatim>\<open>scheduleGracefulBargeIn\<close> and \<^verbatim>\<open>scheduleSentenceCompleteBargeIn\<close> differ in the delay
  only.
\<close>

definition scheduleBargeIn ::
  "nat \<Rightarrow> nat \<Rightarrow> SpeakerId \<Rightarrow> SpeakerId list \<Rightarrow> real \<Rightarrow> BargeInManager \<Rightarrow> BargeInManager" where
  "scheduleBargeIn delay now interrupter targets confidence m =
     (let m1 = (if duckingEnabled (config m) then invoke (OnDuckingRequest targets True) m else m);
          m2 = m1\<lparr> pendingBargeIn := Some \<lparr> pb_interrupter = interrupter,
                  pb_confidence = confidence, pb_scheduledAt = now \<rparr> \<rparr>;
          m3 = (case graceTimer m2 of Some h \<Rightarrow> clearTimeout h m2 | None \<Rightarrow> m2)
      in setTimeout \<lparr> gt_delayMs = delay, gt_interrupter = interrupter, gt_targets = targets,
                     gt_confidence = confidence \<rparr> m3)"

definition scheduleGracefulBargeIn ::
  "nat \<Rightarrow> SpeakerId \<Rightarrow> SpeakerId list \<Rightarrow> real \<Rightarrow> BargeInManager \<Rightarrow> BargeInManager" where
  "scheduleGracefulBargeIn now interrupter targets confidence m =
     scheduleBargeIn (gracePeriodMs (config m)) now interrupter targets confidence m"

definition scheduleSentenceCompleteBargeIn ::
  "nat \<Rightarrow> SpeakerId \<Rightarrow> SpeakerId list \<Rightarrow> real \<Rightarrow> BargeInManager \<Rightarrow> BargeInManager" where
  "scheduleSentenceCompleteBargeIn now interrupter targets confidence m =
     scheduleBargeIn (sentenceCompletionMaxMs (config m)) now interrupter targets confidence m"

text \<open>The authorization test of \<^verbatim>\<open>initiateBargeIn\<close>.\<close>

definition canInterrupt :: "BargeInManager \<Rightarrow> SpeakerId \<Rightarrow> SpeakerId list \<Rightarrow> bool" where
  "canInterrupt m interrupter allowedTargets =
     list_all (\<lambda>target. getPriorityLevel m target \<le> getPriorityLevel m interrupter
                         \<or> interrupter = You) allowedTargets"

definition initiateBargeIn ::
  "nat \<Rightarrow> SpeakerId \<Rightarrow> SpeakerId list \<Rightarrow> real \<Rightarrow> BargeInManager \<Rightarrow> BargeInManager" where
  "initiateBargeIn now interrupter targets confidence m =
     (let allowedTargets = filter (\<lambda>target. sp_allowInterruption (speakerStates m target)) targets
      in if allowedTargets = [] then m
         else if \<not> canInterrupt m interrupter allowedTargets then m
         else (case bargeInMode (config m) of
                 Immediate \<Rightarrow> executeBargeIn now interrupter allowedTargets confidence False m
               | Graceful \<Rightarrow> scheduleGracefulBargeIn now interrupter allowedTargets confidence m
               | SentenceComplete \<Rightarrow>
                   scheduleSentenceCompleteBargeIn now interrupter allowedTargets confidence m
               | Disabled \<Rightarrow> m))"

definition onSpeechStart :: "nat \<Rightarrow> SpeakerId \<Rightarrow> real \<Rightarrow> BargeInManager \<Rightarrow> BargeInManager" where
  "onSpeechStart now speaker confidence m =
     (let m1 = m\<lparr> speakerStates := (speakerStates m)
                  (speaker := (speakerStates m speaker)\<lparr> sp_speaking := True,
                     sp_startedAt := Some now, sp_lastActivityAt := Some now \<rparr>) \<rparr>;
          activeSpeakers = filter (\<lambda>s. s \<noteq> speaker) (getActiveSpeakers m1)
      in if activeSpeakers \<noteq> [] \<and> bargeInMode (config m1) \<noteq> Disabled
         then initiateBargeIn now speaker activeSpeakers confidence m1
         else m1)"

definition onSpeechEnd :: "nat \<Rightarrow> SpeakerId \<Rightarrow> real \<Rightarrow> BargeInManager \<Rightarrow> BargeInManager" where
  "onSpeechEnd now speaker confidence m =
     (let m1 = m\<lparr> speakerStates := (speakerStates m)
                  (speaker := (speakerStates m speaker)\<lparr> sp_speaking := False,
                     sp_lastActivityAt := Some now \<rparr>) \<rparr>
      in case pendingBargeIn m1 of
           Some p \<Rightarrow> if pb_interrupter p = speaker then cancelBargeIn now m1 else m1
         | None \<Rightarrow> m1)"

text \<open>
  The event loop runs the callback of a scheduled timer: if the interrupter is still
  speaking the barge-in is executed, otherwise it is cancelled and ducking is released.
\<close>

definition timerCallback :: "nat \<Rightarrow> GraceTimer \<Rightarrow> BargeInManager \<Rightarrow> BargeInManager" where
  "timerCallback now t m =
     (if sp_speaking (speakerStates m (gt_interrupter t))
      then executeBargeIn now (gt_interrupter t) (gt_targets t) (gt_confidence t) True m
      else (let m1 = cancelBargeIn now m
            in if duckingEnabled (config m1)
               then invoke (OnDuckingRequest (gt_targets t) False) m1 else m1))"

definition timerFires :: "nat \<Rightarrow> nat \<Rightarrow> BargeInManager \<Rightarrow> BargeInManager" where
  "timerFires now h m =
     (case map_of (scheduled m) h of
        None \<Rightarrow> m
      | Some t \<Rightarrow> timerCallback now t (clearTimeout h m))"

section \<open>Enhanced command router (command-router-enhanced.ts)\<close>

subsection \<open>Strings and regular expressions\<close>

text \<open>
  A text is a list of 8-bit characters (the Latin-1 range of JavaScript's code units).
  \<^verbatim>\<open>\s\<close> and \<^verbatim>\<open>trim\<close> know the same white space there: tab, line feed, vertical tab, form
  feed, carriage return, space and no-break space. \<^verbatim>\<open>toLowerCase\<close> maps A-Z and the
  accented capitals (all of 192..222 but the multiplication sign 215) 32 places up.
\<close>

definition isSpace :: "char \<Rightarrow> bool" where
  "isSpace c = (of_char c \<in> {9, 10, 11, 12, 13, 32, 160 :: nat})"

definition isDigit :: "char \<Rightarrow> bool" where
  "isDigit c = (48 \<le> (of_char c :: nat) \<and> (of_char c :: nat) \<le> 57)"

definition isWordChar :: "char \<Rightarrow> bool" where
  "isWordChar c =
     (let n = (of_char c :: nat)
      in (48 \<le> n \<and> n \<le> 57) \<or> (65 \<le> n \<and> n \<le> 90) \<or> n = 95 \<or> (97 \<le> n \<and> n \<le> 122))"

definition toLowerChar :: "char \<Rightarrow> char" where
  "toLowerChar c =
     (let n = (of_char c :: nat)
      in if (65 \<le> n \<and> n \<le> 90) \<or> (192 \<le> n \<and> n \<le> 222 \<and> n \<noteq> 215)
         then char_of (n + 32) else c)"

definition toLowerCase :: "string \<Rightarrow> string" where
  "toLowerCase s = map toLowerChar s"

definition trim :: "string \<Rightarrow> string" where
  "trim s = rev (dropWhile isSpace (rev (dropWhile isSpace s)))"

definition startsWith :: "string \<Rightarrow> string \<Rightarrow> bool" where
  "startsWith s p = (take (length p) s = p)"

fun includesStr :: "string \<Rightarrow> string \<Rightarrow> bool" where
  "includesStr [] p = (p = [])"
| "includesStr (c # cs) p = (startsWith (c # cs) p \<or> includesStr cs p)"

text \<open>\<^verbatim>\<open>words.join(" ")\<close>\<close>

fun joinSpace :: "string list \<Rightarrow> string" where
  "joinSpace [] = []"
| "joinSpace [w] = w"
| "joinSpace (w # ws) = w @ '' '' @ joinSpace ws"

text \<open>
  \<^verbatim>\<open>s.split(/\s+/)\<close>: the fields between the maximal runs of white space (an empty first or
  last field when the text starts or ends with white space). The second argument tells
  whether the character before was white space.
\<close>

fun splitFields :: "string \<Rightarrow> bool \<Rightarrow> string \<Rightarrow> string list" where
  "splitFields field inSeparator [] = [rev field]"
| "splitFields field inSeparator (c # cs) =
     (if isSpace c then
        (if inSeparator then splitFields field True cs
         else rev field # splitFields [] True cs)
      else splitFields (c # field) False cs)"

definition splitSpaces :: "string \<Rightarrow> string list" where
  "splitSpaces s = splitFields [] False s"

text \<open>
  The numbers of JavaScript are IEEE 754 doubles. The router computes a duration from a run
  of digits of any length, so a duration is a non-negative integer that a double can hold,
  or \<^verbatim>\<open>Infinity\<close>. Every integer from 0 to \<open>2 ^ 53\<close> is a double; from there on the doubles
  around \<open>n\<close> are \<open>ulp n\<close> apart, and an integer is rounded to the nearest of them, to the
  one with the even significand when it lies halfway, and to \<^verbatim>\<open>Infinity\<close> when that is
  \<open>2 ^ 1024\<close> or more.
\<close>

datatype number = Finite int | Infinity

function ulp :: "int \<Rightarrow> int" where
  "ulp n = (if n < 9007199254740992 then 1 else 2 * ulp (n div 2))"
  by pat_completeness auto
termination by (relation "measure nat") auto

declare ulp.simps [simp del]

definition toDouble :: "int \<Rightarrow> number" where
  "toDouble n =
     (let u = ulp n;
          q = n div u;
          r = n mod u;
          rounded = (if u < 2 * r \<or> (u = 2 * r \<and> q mod 2 = 1) then (q + 1) * u else q * u)
      in if 2 ^ 1024 \<le> rounded then Infinity else Finite rounded)"

text \<open>The product \<^verbatim>\<open>x * k\<close> of a number and a positive integer constant.\<close>

definition multiply :: "number \<Rightarrow> int \<Rightarrow> number" where
  "multiply x k = (case x of Finite n \<Rightarrow> toDouble (n * k) | Infinity \<Rightarrow> Infinity)"

text \<open>
  \<^verbatim>\<open>Number.parseInt(digits, 10)\<close> on a non-empty run of decimal digits: the integer that the
  digits denote, as a double. (ECMAScript allows an implementation to read the digits after
  the twentieth significant one as zeros; here every digit counts.)
\<close>

definition mathInt :: "string \<Rightarrow> int" where
  "mathInt digits = foldl (\<lambda>n c. 10 * n + (of_char c - 48)) 0 digits"

definition parseInt :: "string \<Rightarrow> number" where
  "parseInt digits = toDouble (mathInt digits)"

text \<open>
  The regular expressions of the router, with the backtracking matcher of JavaScript: a
  match state is the character before the position (none at the start of the text), the
  text from the position on, and the captured groups; matching an expression from a state
  gives the states after it in the order in which backtracking tries them (the first
  alternative first, a quantifier greedy).
\<close>

datatype regex =
    Lit string
  | Space
  | Digit
  | OneOf "char list"
  | SpaceOr "char list"
  | Seq regex regex
  | Alt regex regex
  | Opt regex
  | Star regex
  | Bol
  | WordB
  | Cap nat regex

type_synonym mstate = "char option \<times> string \<times> (nat \<times> string) list"

definition matchChar :: "(char \<Rightarrow> bool) \<Rightarrow> mstate \<Rightarrow> mstate list" where
  "matchChar P st =
     (case st of (prev, rest, caps) \<Rightarrow>
        (case rest of [] \<Rightarrow> [] | c # cs \<Rightarrow> if P c then [(Some c, cs, caps)] else []))"

definition matchLit :: "string \<Rightarrow> mstate \<Rightarrow> mstate list" where
  "matchLit l st =
     (case st of (prev, rest, caps) \<Rightarrow>
        if startsWith rest l
        then [(if l = [] then prev else Some (last l), drop (length l) rest, caps)]
        else [])"

text \<open>
  A starred expression repeats as long as an iteration consumes input; the first argument
  bounds the iterations by the length of the remaining text.
\<close>

fun starIter :: "nat \<Rightarrow> (mstate \<Rightarrow> mstate list) \<Rightarrow> mstate \<Rightarrow> mstate list" where
  "starIter 0 f st = [st]"
| "starIter (Suc n) f st =
     concat (map (\<lambda>st'. if length (fst (snd st')) < length (fst (snd st))
                         then starIter n f st' else []) (f st)) @ [st]"

fun rmatch :: "regex \<Rightarrow> mstate \<Rightarrow> mstate list" where
  "rmatch (Lit l) st = matchLit l st"
| "rmatch Space st = matchChar isSpace st"
| "rmatch Digit st = matchChar isDigit st"
| "rmatch (OneOf cs) st = matchChar (\<lambda>c. c \<in> set cs) st"
| "rmatch (SpaceOr cs) st = matchChar (\<lambda>c. isSpace c \<or> c \<in> set cs) st"
| "rmatch (Seq r1 r2) st = concat (map (rmatch r2) (rmatch r1 st))"
| "rmatch (Alt r1 r2) st = rmatch r1 st @ rmatch r2 st"
| "rmatch (Opt r) st = rmatch r st @ [st]"
| "rmatch (Star r) st = starIter (length (fst (snd st))) (rmatch r) st"
| "rmatch Bol st = (if fst st = None then [st] else [])"
| "rmatch WordB st =
     (case st of (prev, rest, caps) \<Rightarrow>
        (let wordBefore = (case prev of None \<Rightarrow> False | Some c \<Rightarrow> isWordChar c);
             wordAfter = (case rest of [] \<Rightarrow> False | c # _ \<Rightarrow> isWordChar c)
         in if wordBefore \<noteq> wordAfter then [st] else []))"
| "rmatch (Cap k r) st =
     map (\<lambda>(prev', rest', caps').
            (prev', rest', (k, take (length (fst (snd st)) - length rest') (fst (snd st))) # caps'))
         (rmatch r st)"

definition Plus :: "regex \<Rightarrow> regex" where
  "Plus r = Seq r (Star r)"

fun Seqs :: "regex list \<Rightarrow> regex" where
  "Seqs [] = Lit []"
| "Seqs [r] = r"
| "Seqs (r # rs) = Seq r (Seqs rs)"

fun Alts :: "string list \<Rightarrow> regex" where
  "Alts [] = Lit []"
| "Alts [l] = Lit l"
| "Alts (l # ls) = Alt (Lit l) (Alts ls)"

text \<open>
  \<^verbatim>\<open>text.match(re)\<close> for an expression without the global flag: the first position, from
  the left, at which the expression matches; the result is that index, the text after the
  match and the captured groups.
\<close>

fun search :: "regex \<Rightarrow> char option \<Rightarrow> string \<Rightarrow> nat \<Rightarrow> (nat \<times> string \<times> (nat \<times> string) list) option" where
  "search r prev [] i =
     (case rmatch r (prev, [], []) of
        (_, rest', caps') # _ \<Rightarrow> Some (i, rest', caps')
      | [] \<Rightarrow> None)"
| "search r prev (c # cs) i =
     (case rmatch r (prev, c # cs, []) of
        (_, rest', caps') # _ \<Rightarrow> Some (i, rest', caps')
      | [] \<Rightarrow> search r (Some c) cs (i + 1))"

definition exec :: "regex \<Rightarrow> string \<Rightarrow> (nat \<times> string \<times> (nat \<times> string) list) option" where
  "exec r s = search r None s 0"

definition test :: "regex \<Rightarrow> string \<Rightarrow> bool" where
  "test r s = (exec r s \<noteq> None)"

definition capture :: "nat \<Rightarrow> (nat \<times> string) list \<Rightarrow> string" where
  "capture k caps = (case map_of caps k of Some g \<Rightarrow> g | None \<Rightarrow> [])"

text \<open>
  An expression without a capturing group: matching it leaves the captured groups as they
  are.
\<close>

fun capFree :: "regex \<Rightarrow> bool" where
  "capFree (Seq r1 r2) = (capFree r1 \<and> capFree r2)"
| "capFree (Alt r1 r2) = (capFree r1 \<and> capFree r2)"
| "capFree (Opt r) = capFree r"
| "capFree (Star r) = capFree r"
| "capFree (Cap k r) = False"
| "capFree r = True"

subsection \<open>The router\<close>

datatype CommandAction = Address | Thinking | Broadcast | BargeInControl | DuckingControl

record CommandContext =
  lastAddressed :: "SpeakerId list option"
  lastAction :: "CommandAction option"
  ctx_timestamp :: nat
  sessionContext :: "string option"

record CommandRouteResult =
  raw :: string
  normalized :: string
  targets :: "SpeakerId list"
  remainder :: string
  action :: CommandAction
  durationMs :: "number option"
  confidence :: real
  matchedKeywords :: "string list option"
  fuzzyMatched :: "bool option"
  contextSnapshot :: "CommandContext option"

record AddressMatch =
  am_targets :: "SpeakerId list"
  am_remainder :: string
  am_confidence :: real
  am_matchedKeywords :: "string list option"
  am_fuzzyMatched :: "bool option"

definition addressKeywords :: "string list" where
  "addressKeywords =
     [''claude'', ''guest'', ''both'', ''everyone'', ''all'', ''showrunner'', ''autopilot'',
      ''basil'']"

definition thinkingKeywords :: "string list" where
  "thinkingKeywords =
     [''thinking'', ''think'', ''pause'', ''wait'', ''hold'', ''moment'', ''beat'',
      ''countdown'', ''processing'', ''consider'', ''ponder'', ''reflect'']"

definition bargeInKeywords :: "string list" where
  "bargeInKeywords =
     [''interrupt'', ''stop'', ''halt'', ''quiet'', ''silence'', ''mute'', ''hold up'',
      ''wait a minute'']"

definition duckingKeywords :: "string list" where
  "duckingKeywords =
     [''lower'', ''reduce'', ''quieter'', ''softer'', ''volume down'', ''turn down'']"

definition fuzzyThreshold :: nat where
  "fuzzyThreshold = 2"

definition emptyContext :: "nat \<Rightarrow> CommandContext" where
  "emptyContext t0 =
     \<lparr> lastAddressed = None, lastAction = None, ctx_timestamp = t0, sessionContext = None \<rparr>"

definition mapKeywordToTargets :: "string \<Rightarrow> SpeakerId list" where
  "mapKeywordToTargets keyword =
     (if keyword = ''claude'' then [Claude]
      else if keyword = ''guest'' then [Guest]
      else if keyword = ''basil'' then [You]
      else if keyword = ''both'' \<or> keyword = ''everyone'' \<or> keyword = ''all''
        then [Claude, Guest]
      else if keyword = ''showrunner'' \<or> keyword = ''autopilot'' then [Claude]
      else [])"

text \<open>
  \<^verbatim>\<open>levenshteinDistance(a, b)\<close>: the matrix row by row. Row \<open>i\<close> holds the distances between
  the first \<open>i\<close> characters of \<open>b\<close> and every prefix of \<open>a\<close>; \<open>levRow\<close> fills the cells
  \<open>j \<ge> 1\<close> of a row from the row above, with \<open>left\<close> the cell just filled.
\<close>

fun levRow :: "char \<Rightarrow> string \<Rightarrow> nat list \<Rightarrow> nat \<Rightarrow> nat list" where
  "levRow bc (ac # as) (diag # up # upRest) left =
     (let cell = (if bc = ac then diag else min (diag + 1) (min (left + 1) (up + 1)))
      in cell # levRow bc as (up # upRest) cell)"
| "levRow bc _ _ left = []"

fun levRows :: "string \<Rightarrow> string \<Rightarrow> nat list \<Rightarrow> nat \<Rightarrow> nat list" where
  "levRows a [] row i = row"
| "levRows a (bc # bs) row i = levRows a bs (i # levRow bc a row i) (i + 1)"

definition levenshteinDistance :: "string \<Rightarrow> string \<Rightarrow> nat" where
  "levenshteinDistance a b =
     (if length a = 0 then length b
      else if length b = 0 then length a
      else last (levRows a b [0..<length a + 1] 1))"

text \<open>The patterns of \<^verbatim>\<open>detectBargeInControl\<close> and \<^verbatim>\<open>detectDuckingControl\<close>.\<close>

definition bargeInPatterns :: "(regex \<times> real) list" where
  "bargeInPatterns =
     [(Seqs [WordB, Alts [''stop'', ''halt'', ''interrupt'', ''quiet'', ''silence''], WordB], 0.8),
      (Seqs [WordB, Alt (Seqs [Lit ''hold'', Plus Space, Lit ''up''])
                        (Seqs [Lit ''wait'', Plus Space, Lit ''a'', Plus Space, Lit ''minute'']),
             WordB], 0.75),
      (Seqs [WordB, Lit ''mute'', Plus Space, Alts [''everyone'', ''all''], WordB], 0.85)]"

definition duckingPatterns :: "(regex \<times> real) list" where
  "duckingPatterns =
     [(Seqs [WordB, Alts [''lower'', ''reduce'', ''quieter'', ''softer''], Plus Space,
             Alts [''volume'', ''sound''], WordB], 0.8),
      (Seqs [WordB, Lit ''turn'', Plus Space, Lit ''down'', WordB], 0.75),
      (Seqs [WordB, Lit ''volume'', Plus Space, Lit ''down'', WordB], 0.8)]"

definition controlResult ::
  "CommandContext \<Rightarrow> string \<Rightarrow> CommandAction \<Rightarrow> real \<Rightarrow> CommandRouteResult" where
  "controlResult ctx ntext act conf =
     \<lparr> raw = ntext, normalized = ntext, targets = [Claude, Guest], remainder = [],
       action = act, durationMs = None, confidence = conf, matchedKeywords = None,
       fuzzyMatched = None, contextSnapshot = Some ctx \<rparr>"

definition detectBargeInControl :: "CommandContext \<Rightarrow> string \<Rightarrow> CommandRouteResult option" where
  "detectBargeInControl ctx ntext =
     (case find (\<lambda>(pattern, conf). test pattern ntext) bargeInPatterns of
        Some (pattern, conf) \<Rightarrow> Some (controlResult ctx ntext BargeInControl conf)
      | None \<Rightarrow> None)"

definition detectDuckingControl :: "CommandContext \<Rightarrow> string \<Rightarrow> CommandRouteResult option" where
  "detectDuckingControl ctx ntext =
     (case find (\<lambda>(pattern, conf). test pattern ntext) duckingPatterns of
        Some (pattern, conf) \<Rightarrow> Some (controlResult ctx ntext DuckingControl conf)
      | None \<Rightarrow> None)"

text \<open>
  \<^verbatim>\<open>extractAddress\<close>, its four attempts in order. The text is lower case already, so the
  \<^verbatim>\<open>i\<close> flag of the direct and the inline pattern changes nothing.
\<close>

definition directPattern :: regex where
  "directPattern =
     Seqs [Bol, Opt (Seq (Lit ''hey'') (Plus Space)), Opt (Lit ''@''),
           Cap 1 (Alts addressKeywords), Plus (SpaceOr '':-,'')]"

definition directAddress :: "string \<Rightarrow> AddressMatch option" where
  "directAddress ntext =
     (case exec directPattern ntext of
        Some (index, rest, caps) \<Rightarrow>
          Some \<lparr> am_targets = mapKeywordToTargets (capture 1 caps), am_remainder = trim rest,
                 am_confidence = 0.9, am_matchedKeywords = Some [capture 1 caps],
                 am_fuzzyMatched = Some False \<rparr>
      | None \<Rightarrow> None)"

definition prefixAddress :: "string \<Rightarrow> AddressMatch option" where
  "prefixAddress ntext =
     (case find (\<lambda>keyword. startsWith ntext (keyword @ '','') \<or> startsWith ntext (keyword @ '' ''))
             addressKeywords of
        Some keyword \<Rightarrow>
          Some \<lparr> am_targets = mapKeywordToTargets keyword,
                 am_remainder = dropWhile (\<lambda>c. c = CHR '','' \<or> isSpace c)
                                  (drop (length keyword) ntext),
                 am_confidence = 0.7, am_matchedKeywords = Some [keyword],
                 am_fuzzyMatched = Some False \<rparr>
      | None \<Rightarrow> None)"

definition inlinePattern :: "string \<Rightarrow> regex" where
  "inlinePattern keyword = Seqs [WordB, Lit keyword, Plus (SpaceOr '',:-'')]"

fun inlineAddress :: "string list \<Rightarrow> string \<Rightarrow> AddressMatch option" where
  "inlineAddress [] ntext = None"
| "inlineAddress (keyword # keywords) ntext =
     (case exec (inlinePattern keyword) ntext of
        Some (index, rest, caps) \<Rightarrow>
          if index < 20 then
            Some \<lparr> am_targets = mapKeywordToTargets keyword, am_remainder = trim rest,
                   am_confidence = 0.55, am_matchedKeywords = Some [keyword],
                   am_fuzzyMatched = Some False \<rparr>
          else inlineAddress keywords ntext
      | None \<Rightarrow> inlineAddress keywords ntext)"

text \<open>
  \<^verbatim>\<open>fuzzyMatchAddress\<close>: for each of the first three words, the first keyword at distance 1
  or 2 whose similarity \<^verbatim>\<open>1 - distance / keyword.length\<close> is at least 0.6.
\<close>

fun fuzzyKeyword :: "string \<Rightarrow> string list \<Rightarrow> string list \<Rightarrow> AddressMatch option" where
  "fuzzyKeyword word rest [] = None"
| "fuzzyKeyword word rest (keyword # keywords) =
     (let distance = levenshteinDistance word keyword;
          conf = 1 - real distance / real (length keyword)
      in if distance \<le> fuzzyThreshold \<and> 0 < distance \<and> 0.6 \<le> conf then
           Some \<lparr> am_targets = mapKeywordToTargets keyword, am_remainder = joinSpace rest,
                  am_confidence = conf * 0.7, am_matchedKeywords = Some [keyword],
                  am_fuzzyMatched = Some True \<rparr>
         else fuzzyKeyword word rest keywords)"

fun fuzzyWords :: "nat \<Rightarrow> string list \<Rightarrow> AddressMatch option" where
  "fuzzyWords 0 ws = None"
| "fuzzyWords (Suc n) [] = None"
| "fuzzyWords (Suc n) (word # ws) =
     (case fuzzyKeyword word ws addressKeywords of
        Some m \<Rightarrow> Some m
      | None \<Rightarrow> fuzzyWords n ws)"

definition fuzzyMatchAddress :: "string \<Rightarrow> AddressMatch option" where
  "fuzzyMatchAddress ntext = fuzzyWords 3 (splitSpaces ntext)"

definition extractAddress :: "string \<Rightarrow> AddressMatch option" where
  "extractAddress ntext =
     (case directAddress ntext of
        Some m \<Rightarrow> Some m
      | None \<Rightarrow>
          (case prefixAddress ntext of
             Some m \<Rightarrow> Some m
           | None \<Rightarrow>
               (case inlineAddress addressKeywords ntext of
                  Some m \<Rightarrow> Some m
                | None \<Rightarrow> fuzzyMatchAddress ntext)))"

definition continuationPatterns :: "regex list" where
  "continuationPatterns =
     [Seqs [Bol, Opt (Seq (Lit ''and'') (Plus Space)), Alts [''also'', ''too'', ''as well'']],
      Seq Bol (Lit ''continue''),
      Seqs [Bol, Lit ''same'', Plus Space, Lit ''to'', Plus Space, Lit ''you''],
      Seqs [Bol, Lit ''you'', Plus Space, Lit ''too'']]"

definition resolveContextualTargets ::
  "CommandContext \<Rightarrow> string \<Rightarrow> SpeakerId list \<Rightarrow> SpeakerId list" where
  "resolveContextualTargets ctx ntext explicitTargets =
     (if explicitTargets \<noteq> [] then explicitTargets
      else
        (case lastAddressed ctx of
           None \<Rightarrow> []
         | Some addressed \<Rightarrow>
             if list_ex (\<lambda>pattern. test pattern ntext) continuationPatterns then addressed
             else if test (Seqs [WordB, Alts [''same'', ''ditto''], WordB]) ntext then addressed
             else []))"

definition thinkingPatterns :: "regex list" where
  "thinkingPatterns =
     [Seqs [Lit ''thinking'', Plus Space, Lit ''mode''],
      Seqs [Lit ''take'', Plus Space, Lit ''a'', Plus Space, Alts [''beat'', ''moment'', ''second'']],
      Seqs [Lit ''need'', Plus Space, Lit ''to'', Plus Space, Lit ''think''],
      Seqs [Lit ''give'', Plus Space, Alts [''me'', ''us'', ''them''], Plus Space,
            Opt (Plus Digit), Star Space,
            Alt (Seq (Lit ''second'') (Opt (Lit ''s'')))
              (Alt (Seq (Lit ''minute'') (Opt (Lit ''s''))) (Lit ''time''))],
      Lit ''countdown'',
      Seqs [Lit ''time'', Plus Space, Lit ''to'', Plus Space,
            Alts [''think'', ''process'', ''consider'']],
      Seqs [Lit ''let'', Plus Space, Alts [''me'', ''us'', ''them''], Plus Space,
            Alts [''think'', ''process'', ''ponder'']],
      Seqs [Lit ''pause'', Plus Space, Alts [''for'', ''to'']]]"

definition detectAction :: "string \<Rightarrow> SpeakerId list \<Rightarrow> string \<Rightarrow> CommandAction" where
  "detectAction rem tgts fullText =
     (let trimmed = trim rem in
      if trimmed = [] then (if tgts \<noteq> [] then Address else Broadcast)
      else if list_ex (\<lambda>kw. includesStr trimmed kw) bargeInKeywords then BargeInControl
      else if list_ex (\<lambda>kw. includesStr trimmed kw) duckingKeywords then DuckingControl
      else
        (let hasThinkingKeyword = list_ex (\<lambda>kw. includesStr trimmed kw) thinkingKeywords;
             hasThinkingPattern = list_ex (\<lambda>pattern. test pattern trimmed) thinkingPatterns
         in if hasThinkingKeyword \<or> hasThinkingPattern then Thinking
            else if tgts \<noteq> [] then Address else Broadcast))"

text \<open>
  \<^verbatim>\<open>extractDuration\<close>: a number of seconds named in the remainder, else a number of
  minutes, else the length that a quick or a long pause stands for, else 30 seconds.
\<close>

definition secondsPattern :: regex where
  "secondsPattern =
     Seqs [Cap 1 (Plus Digit), Star Space,
           Cap 2 (Alt (Seq (Lit ''second'') (Opt (Lit ''s'')))
                   (Alt (Seq (Lit ''sec'') (Opt (Lit ''s''))) (Seq (Lit ''s'') WordB)))]"

definition minutesPattern :: regex where
  "minutesPattern =
     Seqs [Cap 1 (Plus Digit), Star Space,
           Cap 2 (Alt (Seq (Lit ''minute'') (Opt (Lit ''s'')))
                   (Alt (Seq (Lit ''min'') (Opt (Lit ''s''))) (Seq (Lit ''m'') WordB)))]"

definition quickPausePattern :: regex where
  "quickPausePattern =
     Seqs [WordB, Alts [''quick'', ''brief'', ''short''], Plus Space,
           Alts [''moment'', ''pause'', ''beat'']]"

definition longPausePattern :: regex where
  "longPausePattern =
     Seqs [WordB, Lit ''long'', Plus Space, Alts [''moment'', ''pause'', ''beat'']]"

definition extractDuration :: "string \<Rightarrow> number" where
  "extractDuration rem =
     (case exec secondsPattern rem of
        Some (index, rest, caps) \<Rightarrow> multiply (parseInt (capture 1 caps)) 1000
      | None \<Rightarrow>
          (case exec minutesPattern rem of
             Some (index, rest, caps) \<Rightarrow> multiply (parseInt (capture 1 caps)) 60000
           | None \<Rightarrow>
               if test quickPausePattern rem then Finite 10000
               else if test longPausePattern rem then Finite 60000
               else Finite 30000))"

text \<open>
  \<^verbatim>\<open>route\<close>: the router's context before the call, \<^verbatim>\<open>Date.now()\<close>, the text and the optional
  previous context; the result and the router's context after the call.
\<close>

definition route ::
  "CommandContext \<Rightarrow> nat \<Rightarrow> string \<Rightarrow> CommandContext option
     \<Rightarrow> CommandRouteResult option \<times> CommandContext" where
  "route this now text previousContext =
     (let raw0 = trim text in
      if raw0 = [] then (None, this)
      else
        (let ntext = toLowerCase raw0;
             ctx = (case previousContext of
                      Some previous \<Rightarrow> previous\<lparr> ctx_timestamp := now \<rparr>
                    | None \<Rightarrow> this)
         in case detectBargeInControl ctx ntext of
              Some bargeInCmd \<Rightarrow> (Some bargeInCmd, ctx)
            | None \<Rightarrow>
                (case detectDuckingControl ctx ntext of
                   Some duckingCmd \<Rightarrow> (Some duckingCmd, ctx)
                 | None \<Rightarrow>
                     (let addressed = extractAddress ntext;
                          tgts = (case addressed of Some a \<Rightarrow> am_targets a | None \<Rightarrow> []);
                          rem = (case addressed of Some a \<Rightarrow> am_remainder a | None \<Rightarrow> ntext);
                          act = detectAction rem tgts ntext;
                          contextTargets = resolveContextualTargets ctx ntext tgts;
                          finalTargets = (if contextTargets \<noteq> [] then contextTargets else tgts)
                      in if finalTargets = [] \<and> act = Address then (None, ctx)
                         else
                           (let resolvedTargets =
                                  (if act = Thinking \<and> finalTargets = [] then [Claude]
                                   else finalTargets);
                                result =
                                  \<lparr> raw = raw0, normalized = ntext, targets = resolvedTargets,
                                    remainder = rem, action = act,
                                    durationMs = (if act = Thinking
                                                  then Some (extractDuration rem) else None),
                                    confidence =
                                      (case addressed of
                                         Some a \<Rightarrow> am_confidence a
                                       | None \<Rightarrow> if resolvedTargets \<noteq> [] then 0.5 else 0.3),
                                    matchedKeywords =
                                      (case addressed of
                                         Some a \<Rightarrow> am_matchedKeywords a | None \<Rightarrow> None),
                                    fuzzyMatched =
                                      (case addressed of
                                         Some a \<Rightarrow> am_fuzzyMatched a | None \<Rightarrow> None),
                                    contextSnapshot = Some ctx \<rparr>
                            in if resolvedTargets \<noteq> []
                               then (Some result,
                                     ctx\<lparr> lastAddressed := Some resolvedTargets,
                                          lastAction := Some act, ctx_timestamp := now \<rparr>)
                               else (Some result, ctx))))))"

section \<open>Theorems\<close>

subsection \<open>Caption history and snapshots\<close>

lemma updateOrbState_captions: "captions (updateOrbState sp os st) = captions st"
  by (simp add: updateOrbState_def)

lemma take_Cons_take: "take n (x # take n xs) = take n (x # xs)"
  by (cases n) simp_all

lemma orchStep_captions:
  "captions (orchStep st ev) =
     (case ev of FinalTranscript uuid tx now \<Rightarrow>
        take MAX_CAPTION_HISTORY (transcriptCaption uuid tx now # captions st)
      | _ \<Rightarrow> captions st)"
  by (cases ev) (simp_all add: addCaption_def updateOrbState_captions)

lemma foldl_orchStep_captions:
  "take MAX_CAPTION_HISTORY (captions (foldl orchStep st evs)) =
     take MAX_CAPTION_HISTORY (rev (finalCaptions evs) @ captions st)"
proof (induction evs arbitrary: st)
  case Nil
  show ?case by simp
next
  case (Cons ev evs)
  show ?case
  proof (cases ev)
    case (FinalTranscript uuid tx now)
    have "take MAX_CAPTION_HISTORY (captions (foldl orchStep (orchStep st ev) evs)) =
          take MAX_CAPTION_HISTORY (rev (finalCaptions evs) @
            take MAX_CAPTION_HISTORY (transcriptCaption uuid tx now # captions st))"
      using Cons.IH [of "orchStep st ev"] FinalTranscript by (simp add: addCaption_def)
    also have "\<dots> = take MAX_CAPTION_HISTORY (rev (finalCaptions evs) @
            transcriptCaption uuid tx now # captions st)"
      by (simp add: take_add min_def)
    finally show ?thesis using FinalTranscript by simp
  next
    case (ToggleAutopilot on)
    then show ?thesis using Cons.IH [of "orchStep st ev"] by simp
  next
    case (OrbUpdate sp os)
    then show ?thesis
      using Cons.IH [of "orchStep st ev"] by (simp add: updateOrbState_captions)
  next
    case (ScreenUpdate scr)
    then show ?thesis using Cons.IH [of "orchStep st ev"] by simp
  qed
qed

lemma foldl_orchStep_length:
  "length (captions st) \<le> MAX_CAPTION_HISTORY \<Longrightarrow>
   length (captions (foldl orchStep st evs)) \<le> MAX_CAPTION_HISTORY"
proof (induction evs arbitrary: st)
  case Nil
  then show ?case by simp
next
  case (Cons ev evs)
  have "length (captions (orchStep st ev)) \<le> MAX_CAPTION_HISTORY"
    using Cons.prems by (cases ev) (simp_all add: addCaption_def updateOrbState_captions)
  then show ?case using Cons.IH by simp
qed

text \<open>
  C9. After any sequence of finalized transcripts (interleaved with the other writes to the
  orchestrator's presentation state), the stored caption history is exactly the 20 most
  recent captions, newest first, so it never holds more than 20; and a snapshot exposes
  exactly the most recent min(6, stored) of them together with the current orb states,
  autopilot flag and shared-screen value.
\<close>

theorem caption_history_and_snapshot:
  "captions (orchRun evs) = take 20 (rev (finalCaptions evs))
   \<and> length (captions (orchRun evs)) \<le> 20
   \<and> snap_captions (snapshot (orchRun evs)) =
       take (min 6 (length (captions (orchRun evs)))) (captions (orchRun evs))
   \<and> snap_captions (snapshot (orchRun evs)) = take 6 (rev (finalCaptions evs))
   \<and> snap_orbStates (snapshot (orchRun evs)) = orbStates (orchRun evs)
   \<and> snap_autopilot (snapshot (orchRun evs)) = autopilot (orchRun evs)
   \<and> snap_sharedScreen (snapshot (orchRun evs)) = sharedScreen (orchRun evs)"
proof -
  have len: "length (captions (orchRun evs)) \<le> MAX_CAPTION_HISTORY"
    unfolding orchRun_def by (rule foldl_orchStep_length) (simp add: newOrchestrator_def)
  have "take MAX_CAPTION_HISTORY (captions (orchRun evs)) =
        take MAX_CAPTION_HISTORY (rev (finalCaptions evs))"
    unfolding orchRun_def using foldl_orchStep_captions [of newOrchestrator evs]
    by (simp add: newOrchestrator_def)
  with len have stored: "captions (orchRun evs) = take 20 (rev (finalCaptions evs))"
    by (simp add: MAX_CAPTION_HISTORY_def)
  have snap: "snap_captions (snapshot (orchRun evs)) = take 6 (captions (orchRun evs))"
    by (simp add: snapshot_def CAPTION_SNAPSHOT_LIMIT_def)
  show ?thesis
    using stored len snap
    by (simp add: MAX_CAPTION_HISTORY_def snapshot_def min_def)
qed

subsection \<open>Enhanced VAD: invariants\<close>

lemma computeEnergyConfidence_range:
  "0 \<le> computeEnergyConfidence st \<and> computeEnergyConfidence st \<le> 1"
  by (simp add: computeEnergyConfidence_def Let_def)

lemma computeConsistencyConfidence_range:
  "0 \<le> computeConsistencyConfidence st \<and> computeConsistencyConfidence st \<le> 1"
  by (simp add: computeConsistencyConfidence_def Let_def)

lemma smoothing_range:
  fixes c e k s :: real
  assumes "0 \<le> c" "c \<le> 1" "0 \<le> e" "e \<le> 1" "0 \<le> k" "k \<le> 1" "0 \<le> s" "s \<le> 1"
  shows "0 \<le> c * (1 - 0.15) + (e * 0.4 + k * 0.4 + s * 0.2) * 0.15"
    and "c * (1 - 0.15) + (e * 0.4 + k * 0.4 + s * 0.2) * 0.15 \<le> 1"
proof -
  have eq: "c * (1 - 0.15) + (e * 0.4 + k * 0.4 + s * 0.2) * 0.15
      = (85 * c + 6 * e + 6 * k + 3 * s) / 100"
    by (simp add: field_simps)
  show "0 \<le> c * (1 - 0.15) + (e * 0.4 + k * 0.4 + s * 0.2) * 0.15"
    unfolding eq using assms by simp
  show "c * (1 - 0.15) + (e * 0.4 + k * 0.4 + s * 0.2) * 0.15 \<le> 1"
    unfolding eq using assms by simp
qed

lemma clamp_range:
  fixes x :: real
  shows "lo \<le> hi \<Longrightarrow> lo \<le> max lo (min hi x) \<and> max lo (min hi x) \<le> hi"
  by (simp add: max_def min_def)

lemma updateConfidence_inv: "vadInv st \<Longrightarrow> vadInv (updateConfidence cfg st rms)"
proof -
  assume inv: "vadInv st"
  define s :: real where "s = (if spectralAnalysis cfg then computeSpectralConfidence st else 0.5)"
  have s: "0 \<le> s" "s \<le> 1" by (simp_all add: s_def computeSpectralConfidence_def)
  have c: "0 \<le> currentConfidence st" "currentConfidence st \<le> 1"
    using inv by (simp_all add: vadInv_def)
  note r = smoothing_range [OF c conjunct1 [OF computeEnergyConfidence_range [of st]]
      conjunct2 [OF computeEnergyConfidence_range [of st]]
      conjunct1 [OF computeConsistencyConfidence_range [of st]]
      conjunct2 [OF computeConsistencyConfidence_range [of st]] s]
  show ?thesis
    using inv r by (simp add: vadInv_def updateConfidence_def Let_def s_def)
qed

lemma updateNoiseFloor_inv: "vadInv st \<Longrightarrow> vadInv (updateNoiseFloor cfg st rms)"
  by (auto simp add: vadInv_def updateNoiseFloor_def Let_def max_def min_def)

lemma trackEnergy_inv: "vadInv st \<Longrightarrow> vadInv (trackEnergy st rms)"
  by (simp add: vadInv_def trackEnergy_def)

lemma adaptThresholds_inv: "vadInv st \<Longrightarrow> vadInv (adaptThresholds cfg st rms)"
  using updateNoiseFloor_inv [of st cfg rms]
  by (simp add: adaptThresholds_def Let_def vadInv_def)

lemma scoreConfidence_inv: "vadInv st \<Longrightarrow> vadInv (scoreConfidence cfg st rms)"
  by (simp add: scoreConfidence_def updateConfidence_inv)

lemma frameLevels_inv:
  "vadInv st \<Longrightarrow> frameLevels cfg st buffer offset n = (rms, st4, eff) \<Longrightarrow> vadInv st4"
  by (auto simp add: frameLevels_def Let_def
      intro!: scoreConfidence_inv adaptThresholds_inv trackEnergy_inv)

lemma detectSpeech_inv:
  "vadInv st \<Longrightarrow> detectSpeech cfg st rms eff = (st', evs) \<Longrightarrow> vadInv st'"
  by (auto simp add: vadInv_def detectSpeech_def Let_def split: if_splits)


lemma processFrame_inv:
  "vadInv st \<Longrightarrow> processFrame cfg st buffer offset n = (st', evs) \<Longrightarrow> vadInv st'"
  by (auto simp add: processFrame_def split: prod.splits
      dest: frameLevels_inv detectSpeech_inv)

lemma frameLoop_inv: "vadInv st \<Longrightarrow> vadInv (fst (frameLoop cfg st buffer offset))"
proof (induction cfg st buffer offset rule: frameLoop.induct)
  case (1 cfg st buffer offset)
  then show ?case
    by (subst frameLoop.simps)
       (auto simp add: Let_def split: prod.splits dest: processFrame_inv)
qed

lemma processAudio_inv: "vadInv st \<Longrightarrow> vadInv (fst (processAudio cfg st buffer))"
  by (simp add: processAudio_def frameLoop_inv)

lemma processChunks_inv: "vadInv st \<Longrightarrow> vadInv (processChunks cfg st bs)"
  by (induction bs arbitrary: st) (simp_all add: processAudio_inv)


lemma vadTrace_append:
  "vadTrace cfg st (fs @ gs) = vadTrace cfg st fs @ vadTrace cfg (lastState st (vadTrace cfg st fs)) gs"
  by (induction fs arbitrary: st) (auto simp add: lastState_def Let_def)

lemma frameLoop_trace:
  "fst (frameLoop cfg st buffer offset) =
     lastState st (vadTrace cfg st
       (map (\<lambda>(offset, frameSize). (buffer, offset, frameSize)) (framesOf cfg buffer offset)))"
proof (induction cfg st buffer offset rule: frameLoop.induct)
  case (1 cfg st buffer offset)
  then show ?case
    apply (subst frameLoop.simps)
    apply (subst framesOf.simps)
    apply (auto simp add: Let_def lastState_def split: prod.splits)
    done
qed

lemma processAudio_trace:
  "fst (processAudio cfg st buffer) = lastState st (vadTrace cfg st (chunkFrames cfg buffer))"
  by (simp add: processAudio_def chunkFrames_def frameLoop_trace lastState_def)

lemma processChunks_trace:
  "processChunks cfg st chunks =
     lastState st (vadTrace cfg st (concat (map (chunkFrames cfg) chunks)))"
proof (induction chunks arbitrary: st)
  case Nil
  show ?case by (simp add: lastState_def)
next
  case (Cons b bs)
  show ?case
    by (simp add: Cons.IH processAudio_trace vadTrace_append lastState_def)
qed

lemma vadTrace_inv: "vadInv st \<Longrightarrow> list_all (\<lambda>(q, s). vadInv s) (vadTrace cfg st frames)"
proof (induction frames arbitrary: st)
  case Nil
  show ?case by simp
next
  case (Cons f frames)
  obtain buffer offset n where f: "f = (buffer, offset, n)" by (cases f)
  have "vadInv (fst (processFrame cfg st buffer offset n))"
    using processFrame_inv [OF Cons.prems, of cfg buffer offset n] by (metis prod.collapse)
  then show ?case using Cons.IH by (simp add: f Let_def)
qed

text \<open>
  C7. For every sequence of chunks fed to a detector constructed with default options, after
  every frame processed (and so at the end): the speech threshold is strictly above the
  release threshold, the noise floor lies in [0.0001, 0.1] and the current confidence lies
  in [0, 1].
\<close>

theorem vad_invariants:
  "vadInv (processChunks (vadConfig defaultVadOptions) (vadInit defaultVadOptions) chunks)
   \<and> list_all (\<lambda>(q, st). vadInv st)
       (vadTrace (vadConfig defaultVadOptions) (vadInit defaultVadOptions)
          (concat (map (chunkFrames (vadConfig defaultVadOptions)) chunks)))"
proof -
  have init: "vadInv (vadInit defaultVadOptions)"
    by (simp add: vadInv_def vadInit_def defaultVadOptions_def)
  show ?thesis
    using processChunks_inv [OF init] vadTrace_inv [OF init] by simp
qed

text \<open>
  C10. A non-empty chunk of odd byte length is dropped whole: \<^verbatim>\<open>processAudio\<close> processes no
  frame of it, leaves every field of the detector's state as it was and makes no call to
  the speech-start, speech-end or confidence-update callbacks.
\<close>

theorem odd_chunk_dropped:
  "buffer \<noteq> [] \<Longrightarrow> odd (length buffer) \<Longrightarrow> processAudio cfg st buffer = (st, [])"
  by (simp add: processAudio_def)

theorem odd_chunk_dropped_witness:
  "[1, 2, 3 :: byte] \<noteq> [] \<and> odd (length [1, 2, 3 :: byte])
   \<and> processAudio (vadConfig defaultVadOptions) (vadInit defaultVadOptions) [1, 2, 3] =
       (vadInit defaultVadOptions, [])"
  using odd_chunk_dropped [of "[1, 2, 3]" "vadConfig defaultVadOptions" "vadInit defaultVadOptions"]
  by simp

subsection \<open>Enhanced VAD: the start of speech\<close>





























subsection \<open>Audio processor: the gain ramp\<close>

lemma sampleLoop_single [simp]: "sampleLoop st [b] = (Inl RangeError, st)"
  by (simp add: sampleLoop.simps(2) readInt16LE_def)

lemma sampleLoop_pair [simp]:
  "sampleLoop st (lo # hi # rest) =
     (case advanceRamp st of
        (gain, st') \<Rightarrow>
          (case sampleLoop st' rest of
             (Inl e, st'') \<Rightarrow> (Inl e, st'')
           | (Inr out, st'') \<Rightarrow>
               (Inr (writeInt16LE (scaleSample (int16LE lo hi) gain) @ out), st'')))"
  by (simp add: sampleLoop.simps(2) readInt16LE_def)

lemma sampleLoop_induct [case_names empty single pair]:
  assumes "\<And>st. P st []" "\<And>st b. P st [b]"
    and "\<And>st lo hi rest. (\<And>gain st'. advanceRamp st = (gain, st') \<Longrightarrow> P st' rest)
           \<Longrightarrow> P st (lo # hi # rest)"
  shows "P st buffer"
proof (induction buffer arbitrary: st rule: induct_list012)
  case 1
  show ?case by (rule assms(1))
next
  case (2 b)
  show ?case by (rule assms(2))
next
  case (3 lo hi rest)
  show ?case by (rule assms(3)) (rule "3.IH"(1))
qed

lemma dbToGain_range: "db \<le> 0 \<Longrightarrow> 0 \<le> dbToGain db \<and> dbToGain db \<le> 1"
proof -
  assume "db \<le> 0"
  then have "10 powr (db / 20) \<le> (10::real) powr 0"
    by (intro powr_mono) simp_all
  then show ?thesis by (simp add: dbToGain_def)
qed

lemma curveProgress_range:
  "0 \<le> p \<Longrightarrow> p \<le> 1 \<Longrightarrow> 0 \<le> curveProgress c p \<and> curveProgress c p \<le> 1"
proof (cases c)
  case Linear
  assume "0 \<le> p" "p \<le> 1"
  then show ?thesis using Linear by (simp add: curveProgress_def)
next
  case Exponential
  assume "0 \<le> p" "p \<le> 1"
  then show ?thesis using Exponential by (simp add: curveProgress_def mult_le_one)
next
  case Logarithmic
  assume p: "0 \<le> p" "p \<le> 1"
  then have "0 \<le> (1 - p)\<^sup>2" "(1 - p)\<^sup>2 \<le> 1"
    by (simp_all add: power_le_one)
  then show ?thesis using Logarithmic by (simp add: curveProgress_def)
qed

lemma interpolate_range:
  fixes a b t :: real
  assumes "0 \<le> a" "a \<le> 1" "0 \<le> b" "b \<le> 1" "0 \<le> t" "t \<le> 1"
  shows "0 \<le> a + (b - a) * t \<and> a + (b - a) * t \<le> 1"
proof -
  have eq: "a + (b - a) * t = a * (1 - t) + b * t" by (simp add: algebra_simps)
  have lo: "0 \<le> a * (1 - t) + b * t" using assms by simp
  have "a * (1 - t) + b * t \<le> 1 * (1 - t) + 1 * t"
    using assms by (intro add_mono mult_right_mono) simp_all
  then have hi: "a * (1 - t) + b * t \<le> 1" by simp
  show ?thesis unfolding eq using lo hi by (rule conjI)
qed

lemma computeRampGain_range:
  assumes "gainsInRange st" "int (elapsedSamples st) \<le> rampSamples st"
    and "computeRampGain st = Some g"
  shows "0 \<le> g \<and> g \<le> 1"
proof -
  have r: "rampSamples st \<noteq> 0" using assms(3) by (auto simp add: computeRampGain_def)
  then have pos: "0 < rampSamples st" using assms(2) by linarith
  let ?p = "real (elapsedSamples st) / real_of_int (rampSamples st)"
  have p0: "0 \<le> ?p" using pos by simp
  have p1: "?p \<le> 1" using pos assms(2) by simp
  have g: "g = startGain st + (targetGain st - startGain st) * curveProgress (rampCurve st) ?p"
    using assms(3) r by (simp add: computeRampGain_def Let_def)
  show ?thesis
    unfolding g using assms(1) curveProgress_range [OF p0 p1, of "rampCurve st"]
    by (intro interpolate_range) (simp_all add: gainsInRange_def)
qed

lemma advanceRamp_inv:
  assumes "rampInv st" "gainsInRange st" "advanceRamp st = (gain, st')"
  shows "rampInv st' \<and> gainsInRange st'"
proof (cases "active st")
  case False
  then show ?thesis using assms by (simp add: advanceRamp_def)
next
  case True
  show ?thesis
  proof (cases "rampSamples st \<le> int (elapsedSamples st) + 1")
    case fin: True
    then have "st' = st\<lparr> elapsedSamples := elapsedSamples st + 1, active := False,
        currentGain := targetGain st \<rparr>"
      using assms(3) True by (simp add: advanceRamp_def Let_def)
    then show ?thesis using assms(1,2) by (simp add: rampInv_def gainsInRange_def)
  next
    case going: False
    then have r: "rampSamples st \<noteq> 0" by linarith
    then obtain g where g: "computeRampGain st = Some g"
      by (simp add: computeRampGain_def Let_def)
    have st': "st' = st\<lparr> elapsedSamples := elapsedSamples st + 1, currentGain := g \<rparr>"
      using assms(3) True going g by (simp add: advanceRamp_def Let_def)
    have "int (elapsedSamples st) \<le> rampSamples st" using going by linarith
    from computeRampGain_range [OF assms(2) this g]
    show ?thesis using assms(1,2) True going
      by (simp add: st' rampInv_def gainsInRange_def)
  qed
qed

lemma sampleLoop_inv:
  "rampInv st \<Longrightarrow> gainsInRange st \<Longrightarrow>
   rampInv (snd (sampleLoop st buffer)) \<and> gainsInRange (snd (sampleLoop st buffer))"
proof (induction st buffer rule: sampleLoop_induct)
  case (empty st)
  then show ?case by simp
next
  case (single st b)
  then show ?case by simp
next
  case (pair st lo hi rest)
  obtain gain st' where a: "advanceRamp st = (gain, st')" by (cases "advanceRamp st")
  have i: "rampInv st' \<and> gainsInRange st'" using advanceRamp_inv [OF pair.prems a] .
  have "rampInv (snd (sampleLoop st' rest)) \<and> gainsInRange (snd (sampleLoop st' rest))"
    using pair.IH [OF a] i by simp
  then show ?case by (auto simp add: a split: prod.splits sum.splits)
qed

lemma processBuffer_inv:
  "rampInv st \<Longrightarrow> gainsInRange st \<Longrightarrow>
   rampInv (snd (processBuffer st buffer)) \<and> gainsInRange (snd (processBuffer st buffer))"
  by (simp add: processBuffer_def sampleLoop_inv)

lemma startDucking_inv:
  assumes "getDuckingReduction cfg \<le> 0" "0 \<le> ap_sampleRate cfg" "0 \<le> rampUpMs cfg"
    and "rampInv st"
  shows "rampInv (startDucking cfg immediate st) \<and> gainsInRange (startDucking cfg immediate st)"
  using dbToGain_range [OF assms(1)] assms(2,3,4)
  by (simp add: startDucking_def Let_def rampInv_def gainsInRange_def)

lemma stopDucking_inv:
  assumes "0 \<le> ap_sampleRate cfg" "0 \<le> rampDownMs cfg" "rampInv st"
  shows "rampInv (stopDucking cfg immediate st) \<and> gainsInRange (stopDucking cfg immediate st)"
  using assms by (simp add: stopDucking_def Let_def rampInv_def gainsInRange_def)

lemma audioCall_inv:
  assumes "getDuckingReduction cfg \<le> 0" "0 \<le> ap_sampleRate cfg" "0 \<le> rampUpMs cfg"
    "0 \<le> rampDownMs cfg" "rampInv st \<and> gainsInRange st"
  shows "rampInv (audioCall cfg st c) \<and> gainsInRange (audioCall cfg st c)"
proof (cases c)
  case (StartDucking immediate)
  then show ?thesis using startDucking_inv [OF assms(1,2,3)] assms(5) by simp
next
  case (StopDucking immediate)
  then show ?thesis using stopDucking_inv [OF assms(2,4)] assms(5) by simp
next
  case (ProcessBuffer buffer)
  then show ?thesis using processBuffer_inv assms(5) by simp
qed

lemma foldl_audioCall_inv:
  assumes "getDuckingReduction cfg \<le> 0" "0 \<le> ap_sampleRate cfg" "0 \<le> rampUpMs cfg"
    "0 \<le> rampDownMs cfg"
  shows "rampInv st \<and> gainsInRange st \<Longrightarrow>
    rampInv (foldl (audioCall cfg) st calls) \<and> gainsInRange (foldl (audioCall cfg) st calls)"
proof (induction calls arbitrary: st)
  case Nil
  then show ?case by simp
next
  case (Cons c calls)
  show ?case using Cons.IH [OF audioCall_inv [OF assms Cons.prems]] by simp
qed

text \<open>
  C6 (amended). For a profile whose reduction is not positive (soft, medium, hard, or a
  custom \<^verbatim>\<open>reductionDb\<close> at or below 0) and a non-negative sample rate and ramp times,
  after every sequence of \<^verbatim>\<open>startDucking\<close>, \<^verbatim>\<open>stopDucking\<close> and \<^verbatim>\<open>processBuffer\<close> calls the
  current gain lies in [0, 1]; while a ramp is active the elapsed samples do not exceed the
  ramp's length; and when no ramp is active (so also when one has just completed) the
  current gain equals the target gain.
\<close>

theorem gain_ramp_invariants:
  assumes "getDuckingReduction cfg \<le> 0" "0 \<le> ap_sampleRate cfg" "0 \<le> rampUpMs cfg"
    "0 \<le> rampDownMs cfg"
  shows "rampInv (audioCalls cfg calls)"
proof -
  have "rampInv (newAudioProcessor cfg) \<and> gainsInRange (newAudioProcessor cfg)"
    by (simp add: rampInv_def gainsInRange_def newAudioProcessor_def)
  from foldl_audioCall_inv [OF assms this] show ?thesis by (simp add: audioCalls_def)
qed



lemma dbToGain_neq_one: "db \<noteq> 0 \<Longrightarrow> dbToGain db \<noteq> 1"
  by (simp add: dbToGain_def powr_eq_one_iff)

lemma sampleLoop_odd: "odd (length buffer) \<Longrightarrow> fst (sampleLoop st buffer) = Inl RangeError"
  by (induction st buffer rule: sampleLoop_induct)
     (auto split: prod.splits sum.splits)

lemma int16LE_writeInt16LE:
  assumes "-32768 \<le> v" "v \<le> 32767"
  shows "int16LE (word_of_int v) (word_of_int (v div 256)) = v"
proof -
  have "v mod (256 * 256) = 256 * (v div 256 mod 256) + v mod 256"
    by (rule zmod_zmult2_eq) simp
  then have u: "uint (word_of_int v :: byte) + 256 * uint (word_of_int (v div 256) :: byte)
      = v mod 65536"
    by (simp add: uint_word_of_int)
  show ?thesis
  proof (cases "0 \<le> v")
    case True
    then have "v mod 65536 = v" using assms by simp
    then show ?thesis using assms True by (simp add: int16LE_def u Let_def)
  next
    case False
    have "(v + 65536) mod 65536 = v + 65536"
      using assms False by (intro mod_pos_pos_trivial) simp_all
    then have "v mod 65536 = v + 65536" by simp
    then show ?thesis using assms False by (simp add: int16LE_def u Let_def)
  qed
qed

lemma scaleSample_range: "-32768 \<le> scaleSample s g \<and> scaleSample s g \<le> 32767"
  by (simp add: scaleSample_def clamp16_def split: option.splits)

lemma samplesOf_write:
  "-32768 \<le> v \<Longrightarrow> v \<le> 32767 \<Longrightarrow> samplesOf (writeInt16LE v @ out) = v # samplesOf out"
  by (simp add: writeInt16LE_def int16LE_writeInt16LE)

lemma sampleLoop_even:
  "even (length buffer) \<Longrightarrow>
   \<exists>out. fst (sampleLoop st buffer) = Inr out \<and> length out = length buffer
     \<and> samplesOf out = map2 scaleSample (samplesOf buffer) (gainsFrom st (length buffer div 2))"
proof (induction st buffer rule: sampleLoop_induct)
  case (empty st)
  then show ?case by simp
next
  case (single st b)
  then show ?case by simp
next
  case (pair st lo hi rest)
  obtain gain st' where a: "advanceRamp st = (gain, st')" by (cases "advanceRamp st")
  obtain out where out: "fst (sampleLoop st' rest) = Inr out" "length out = length rest"
      "samplesOf out = map2 scaleSample (samplesOf rest) (gainsFrom st' (length rest div 2))"
    using pair.IH [OF a] pair.prems by auto
  obtain st'' where l: "sampleLoop st' rest = (Inr out, st'')"
    using out(1) by (cases "sampleLoop st' rest") simp
  have "fst (sampleLoop st (lo # hi # rest))
      = Inr (writeInt16LE (scaleSample (int16LE lo hi) gain) @ out)"
    by (simp add: a l)
  moreover have "length (writeInt16LE (scaleSample (int16LE lo hi) gain) @ out)
      = length (lo # hi # rest)"
    by (simp add: writeInt16LE_def out(2))
  moreover have "samplesOf (writeInt16LE (scaleSample (int16LE lo hi) gain) @ out)
      = map2 scaleSample (samplesOf (lo # hi # rest))
          (gainsFrom st (length (lo # hi # rest) div 2))"
    using scaleSample_range [of "int16LE lo hi" gain]
    by (simp add: samplesOf_write out(3) a)
  ultimately show ?case by blast
qed

lemma gainsFrom_held:
  "\<not> active st \<Longrightarrow> gainsFrom st n = replicate n (Some (currentGain st))"
  by (induction n) (simp_all add: advanceRamp_def)

lemma processBuffer_passthrough:
  "\<not> active st \<Longrightarrow> currentGain st = 1 \<Longrightarrow> processBuffer st buffer = (Inr buffer, st)"
  by (simp add: processBuffer_def)

lemma processBuffer_even_length:
  "even (length buffer) \<Longrightarrow> active st \<or> currentGain st \<noteq> 1 \<Longrightarrow>
   \<exists>out. fst (processBuffer st buffer) = Inr out \<and> length out = length buffer
     \<and> samplesOf out = map2 scaleSample (samplesOf buffer) (gainsFrom st (length buffer div 2))"
  using sampleLoop_even [of buffer st] by (auto simp add: processBuffer_def)

lemma applyGain_length: "length (applyGain buffer gain) = length buffer"
  by (induction buffer gain rule: applyGain.induct) (simp_all add: writeInt16LE_def)

lemma applyGain_samples:
  "samplesOf (applyGain buffer gain) =
     map (\<lambda>sample. clamp16 (jsRound (real_of_int sample * gain))) (samplesOf buffer)"
proof (induction buffer gain rule: applyGain.induct)
  case (1 gain)
  show ?case by simp
next
  case (2 b gain)
  show ?case by simp
next
  case (3 lo hi rest gain)
  have "-32768 \<le> clamp16 (jsRound (real_of_int (int16LE lo hi) * gain))"
    "clamp16 (jsRound (real_of_int (int16LE lo hi) * gain)) \<le> 32767"
    by (simp_all add: clamp16_def)
  then show ?case using 3 by (simp add: samplesOf_write)
qed

lemma applyGain_odd_last:
  "odd (length buffer) \<Longrightarrow> last (applyGain buffer gain) = last buffer"
proof (induction buffer gain rule: applyGain.induct)
  case (1 gain)
  then show ?case by simp
next
  case (2 b gain)
  show ?case by simp
next
  case (3 lo hi rest gain)
  then have "rest \<noteq> []" by auto
  moreover have "applyGain rest gain \<noteq> []"
    using applyGain_length [of rest gain] \<open>rest \<noteq> []\<close> by (metis length_0_conv)
  ultimately show ?case using 3 by simp
qed

text \<open>
  C6 as stated fails for a custom profile with a positive \<^verbatim>\<open>reductionDb\<close>: with +20 dB an
  immediate \<^verbatim>\<open>startDucking\<close> sets the current gain to 10.
\<close>

theorem custom_boost_exceeds_unity:
  "currentGain (audioCalls boostConfig [StartDucking True]) = 10
   \<and> \<not> rampInv (audioCalls boostConfig [StartDucking True])"
  by (simp add: audioCalls_def startDucking_def Let_def boostConfig_def defaultAudioConfig_def
      getDuckingReduction_def dbToGain_def rampInv_def)

theorem gain_ramp_invariants_witness:
  "getDuckingReduction defaultAudioConfig \<le> 0 \<and> 0 \<le> ap_sampleRate defaultAudioConfig
   \<and> 0 \<le> rampUpMs defaultAudioConfig \<and> 0 \<le> rampDownMs defaultAudioConfig
   \<and> rampInv (audioCalls defaultAudioConfig
        [StartDucking False, ProcessBuffer [0, 0, 255, 127], StopDucking False])"
proof -
  have h: "getDuckingReduction defaultAudioConfig \<le> 0" "0 \<le> ap_sampleRate defaultAudioConfig"
    "0 \<le> rampUpMs defaultAudioConfig" "0 \<le> rampDownMs defaultAudioConfig"
    by (simp_all add: getDuckingReduction_def defaultAudioConfig_def)
  show ?thesis
    using h gain_ramp_invariants [OF h] by simp
qed

text \<open>
  C5. On an odd-length buffer the orchestrator's \<^verbatim>\<open>applyGain\<close> copies the last byte (it
  keeps the length, \<open>applyGain_length\<close>, scales the complete samples, \<open>applyGain_samples\<close>,
  and keeps the last byte, \<open>applyGain_odd_last\<close>), but
  \<^verbatim>\<open>processBuffer\<close>, once it is ducking, reads the last byte as a sample and throws
  (\<open>sampleLoop_odd\<close>): here after an immediate \<^verbatim>\<open>startDucking\<close> on the three bytes 0, 0, 127.
\<close>

theorem processBuffer_odd_buffer_throws:
  "fst (processBuffer (startDucking defaultAudioConfig True (newAudioProcessor defaultAudioConfig))
     [0, 0, 127]) = Inl RangeError
   \<and> applyGain [0, 0, 127] (dbToGain (-12)) = [0, 0, 127]"
proof -
  let ?st = "startDucking defaultAudioConfig True (newAudioProcessor defaultAudioConfig)"
  have "currentGain ?st = dbToGain (-12)"
    by (simp add: startDucking_def Let_def getDuckingReduction_def defaultAudioConfig_def)
  then have "currentGain ?st \<noteq> 1" using dbToGain_neq_one [of "-12"] by simp
  then have "processBuffer ?st [0, 0, 127] = sampleLoop ?st [0, 0, 127]"
    by (simp add: processBuffer_def)
  moreover have "fst (sampleLoop ?st [0, 0, 127]) = Inl RangeError"
    by (rule sampleLoop_odd) simp
  moreover have "applyGain [0, 0, 127] (dbToGain (-12)) = [0, 0, 127]"
    by (simp add: int16LE_def jsRound_def clamp16_def writeInt16LE_def)
  ultimately show ?thesis by simp
qed

text \<open>
  C1. On buffers of even length \<^verbatim>\<open>processBuffer\<close> does what the claim says: the output has
  the input's length and its samples are the clamped, rounded products of the input's
  samples with the gain at their positions (\<open>processBuffer_even_length\<close>, with
  \<open>gainsFrom_held\<close> for the held gain), and without ramp at gain 1 the buffer is returned
  as it is (\<open>processBuffer_passthrough\<close>). On a buffer of odd length it returns nothing:
  with a ramp active, a single byte makes it throw.
\<close>

theorem processBuffer_single_byte_throws:
  "fst (processBuffer (startDucking defaultAudioConfig False (newAudioProcessor defaultAudioConfig))
     [5]) = Inl RangeError"
  by (simp add: processBuffer_def startDucking_def Let_def)

subsection \<open>Barge-in manager\<close>

lemmas bargeIn_defs =
  newBargeInManager_def defaultBargeInConfig_def onSpeechStart_def onSpeechEnd_def
  initiateBargeIn_def canInterrupt_def getPriorityLevel_def getActiveSpeakers_def
  scheduleGracefulBargeIn_def scheduleSentenceCompleteBargeIn_def scheduleBargeIn_def
  executeBargeIn_def cancelBargeIn_def timerFires_def timerCallback_def
  setTimeout_def clearTimeout_def invoke_def logEvent_def maxHistorySize_def Let_def

text \<open>
  C2. The claim has an agent interrupt only targets of strictly lower priority. The code
  compares with \<^verbatim>\<open>>=\<close>: in the default manager both agents have priority medium (50), and
  when the guest starts to speak over claude the barge-in is scheduled (ducking is
  requested for claude) and, when the grace timer fires, executed.
\<close>

theorem equal_priority_agent_interrupts:
  "getPriorityLevel (newBargeInManager defaultBargeInConfig) Guest = 50
   \<and> getPriorityLevel (newBargeInManager defaultBargeInConfig) Claude = 50
   \<and> callbackCalls (onSpeechStart 100 Guest 0.9
         (onSpeechStart 0 Claude 0.9 (newBargeInManager defaultBargeInConfig)))
       = [OnDuckingRequest [Claude] True]
   \<and> callbackCalls (timerFires 400 0 (onSpeechStart 100 Guest 0.9
         (onSpeechStart 0 Claude 0.9 (newBargeInManager defaultBargeInConfig))))
       = [OnDuckingRequest [Claude] True, OnBargeInStart Guest [Claude],
          OnBargeInComplete Guest [Claude]]
   \<and> \<not> sp_speaking (speakerStates (timerFires 400 0 (onSpeechStart 100 Guest 0.9
         (onSpeechStart 0 Claude 0.9 (newBargeInManager defaultBargeInConfig)))) Claude)"
  by (simp add: bargeIn_defs)

text \<open>
  C3. Graceful mode with ducking: claude speaks, the human starts (ducking is requested for
  claude, a barge-in is pending) and stops before the grace timer fires. The pending
  barge-in is cancelled: the timer is cleared, \<^verbatim>\<open>onBargeInCancelled\<close> is called, a cancelled
  event is recorded and no start or complete event. But no \<^verbatim>\<open>onDuckingRequest(T, false)\<close>
  is made, and with the timer cleared none will be: \<^verbatim>\<open>onSpeechEnd\<close> calls no callback but
  \<^verbatim>\<open>onBargeInCancelled\<close> (\<open>onSpeechEnd_calls\<close>).
\<close>

theorem cancel_on_speech_end_keeps_ducking:
  "callbackCalls (onSpeechStart 0 You 0.85
       (onSpeechStart 0 Claude 0.9 (newBargeInManager defaultBargeInConfig)))
     = [OnDuckingRequest [Claude] True]
   \<and> callbackCalls (onSpeechEnd 150 You 0.85 (onSpeechStart 0 You 0.85
       (onSpeechStart 0 Claude 0.9 (newBargeInManager defaultBargeInConfig))))
     = [OnDuckingRequest [Claude] True, OnBargeInCancelled]
   \<and> map ev_type (bargeInHistory (onSpeechEnd 150 You 0.85 (onSpeechStart 0 You 0.85
       (onSpeechStart 0 Claude 0.9 (newBargeInManager defaultBargeInConfig)))))
     = [BargeInCancelled]
   \<and> scheduled (onSpeechEnd 150 You 0.85 (onSpeechStart 0 You 0.85
       (onSpeechStart 0 Claude 0.9 (newBargeInManager defaultBargeInConfig)))) = []
   \<and> graceTimer (onSpeechEnd 150 You 0.85 (onSpeechStart 0 You 0.85
       (onSpeechStart 0 Claude 0.9 (newBargeInManager defaultBargeInConfig)))) = None"
  by (simp add: bargeIn_defs)

lemma cancelBargeIn_calls:
  "callbackCalls (cancelBargeIn now m) =
     callbackCalls m @ (if pendingBargeIn m = None then [] else [OnBargeInCancelled])"
  by (simp add: cancelBargeIn_def clearTimeout_def invoke_def logEvent_def Let_def
      split: option.splits)

lemma onSpeechEnd_calls:
  "callbackCalls (onSpeechEnd now speaker conf m) =
     callbackCalls m @
       (case pendingBargeIn m of
          None \<Rightarrow> []
        | Some p \<Rightarrow> if pb_interrupter p = speaker then [OnBargeInCancelled] else [])"
  by (simp add: onSpeechEnd_def cancelBargeIn_calls Let_def split: option.splits)

lemma onSpeechEnd_scheduled:
  "pendingBargeIn m = Some p \<Longrightarrow> pb_interrupter p = speaker \<Longrightarrow> graceTimer m = Some h \<Longrightarrow>
   map_of (scheduled (onSpeechEnd now speaker conf m)) h = None"
  by (simp add: onSpeechEnd_def cancelBargeIn_def clearTimeout_def invoke_def logEvent_def
      Let_def map_of_eq_None_iff image_iff split: option.splits)

subsection \<open>Command router\<close>

lemma fuzzyKeyword_confidence:
  "fuzzyKeyword w rest kws = Some m \<Longrightarrow> 0 \<le> am_confidence m \<and> am_confidence m \<le> 1"
proof (induction kws)
  case Nil
  then show ?case by simp
next
  case (Cons kw kws)
  let ?d = "levenshteinDistance w kw"
  define c where "c = 1 - real ?d / real (length kw)"
  show ?case
  proof (cases "?d \<le> fuzzyThreshold \<and> 0 < ?d \<and> 0.6 \<le> c")
    case True
    then have m: "am_confidence m = c * 0.7"
      using Cons.prems by (auto simp add: Let_def c_def)
    have "c \<le> 1" by (simp add: c_def)
    moreover have "0.6 \<le> c" using True by simp
    ultimately have "0 \<le> c * 0.7 \<and> c * 0.7 \<le> 1" by simp
    then show ?thesis unfolding m .
  next
    case False
    then have "fuzzyKeyword w rest kws = Some m"
      using Cons.prems by (auto simp add: Let_def c_def)
    then show ?thesis by (rule Cons.IH)
  qed
qed

lemma fuzzyWords_confidence:
  "fuzzyWords n ws = Some m \<Longrightarrow> 0 \<le> am_confidence m \<and> am_confidence m \<le> 1"
  by (induction n ws rule: fuzzyWords.induct)
     (auto split: option.splits dest: fuzzyKeyword_confidence)

lemma inlineAddress_confidence:
  "inlineAddress kws s = Some m \<Longrightarrow> am_confidence m = 0.55"
  by (induction kws) (auto split: option.splits if_splits)

lemma extractAddress_confidence:
  assumes "extractAddress s = Some m"
  shows "0 \<le> am_confidence m \<and> am_confidence m \<le> 1"
proof (cases "directAddress s")
  case (Some d)
  then have "am_confidence m = 0.9"
    using assms by (auto simp add: extractAddress_def directAddress_def split: option.splits)
  then show ?thesis by simp
next
  case None
  note direct = None
  show ?thesis
  proof (cases "prefixAddress s")
    case (Some p)
    then have "am_confidence m = 0.7"
      using assms direct
      by (auto simp add: extractAddress_def prefixAddress_def split: option.splits)
    then show ?thesis by simp
  next
    case None
    note pre = None
    show ?thesis
    proof (cases "inlineAddress addressKeywords s")
      case (Some i)
      then have "am_confidence m = 0.55"
        using assms direct pre inlineAddress_confidence [of addressKeywords s m]
        by (simp add: extractAddress_def)
      then show ?thesis by simp
    next
      case None
      then have "fuzzyWords 3 (splitSpaces s) = Some m"
        using assms direct pre by (simp add: extractAddress_def fuzzyMatchAddress_def)
      then show ?thesis by (rule fuzzyWords_confidence)
    qed
  qed
qed

lemma detectBargeInControl_result:
  assumes "detectBargeInControl ctx s = Some r"
  shows "0 \<le> confidence r \<and> confidence r \<le> 1 \<and> action r = BargeInControl
     \<and> durationMs r = None"
proof -
  obtain pattern conf where f: "find (\<lambda>(pattern, conf). test pattern s) bargeInPatterns
      = Some (pattern, conf)" and r: "r = controlResult ctx s BargeInControl conf"
    using assms by (auto simp add: detectBargeInControl_def split: option.splits)
  have "(pattern, conf) \<in> set bargeInPatterns"
    using f by (auto simp add: find_Some_iff in_set_conv_nth)
  then have "conf \<in> {0.8, 0.75, 0.85}" by (auto simp add: bargeInPatterns_def)
  then show ?thesis by (auto simp add: r controlResult_def)
qed

lemma detectDuckingControl_result:
  assumes "detectDuckingControl ctx s = Some r"
  shows "0 \<le> confidence r \<and> confidence r \<le> 1 \<and> action r = DuckingControl
     \<and> durationMs r = None"
proof -
  obtain pattern conf where f: "find (\<lambda>(pattern, conf). test pattern s) duckingPatterns
      = Some (pattern, conf)" and r: "r = controlResult ctx s DuckingControl conf"
    using assms by (auto simp add: detectDuckingControl_def split: option.splits)
  have "(pattern, conf) \<in> set duckingPatterns"
    using f by (auto simp add: find_Some_iff in_set_conv_nth)
  then have "conf \<in> {0.8, 0.75}" by (auto simp add: duckingPatterns_def)
  then show ?thesis by (auto simp add: r controlResult_def)
qed

text \<open>
  The number that a duration names: the first group of a match of the seconds or of the
  minutes pattern is a non-empty run of decimal digits, and \<open>mathInt\<close> of it, the integer
  it denotes, is not negative.
\<close>

lemma rmatch_Seq:
  "st' \<in> set (rmatch (Seq r1 r2) st)
   \<longleftrightarrow> (\<exists>st1. st1 \<in> set (rmatch r1 st) \<and> st' \<in> set (rmatch r2 st1))"
  by auto

lemma rmatch_Cap:
  "st' \<in> set (rmatch (Cap k r) st)
   \<longleftrightarrow> (\<exists>st0. st0 \<in> set (rmatch r st)
          \<and> st' = (fst st0, fst (snd st0),
                 (k, take (length (fst (snd st)) - length (fst (snd st0))) (fst (snd st)))
                 # snd (snd st0)))"
  by (auto simp add: image_iff) force

lemma starIter_caps:
  assumes step: "\<And>st st'. st' \<in> set (f st) \<Longrightarrow> snd (snd st') = snd (snd st)"
  shows "st' \<in> set (starIter n f st) \<Longrightarrow> snd (snd st') = snd (snd st)"
proof (induction n arbitrary: st)
  case 0
  then show ?case by simp
next
  case (Suc n)
  show ?case
  proof (cases "st' = st")
    case True
    then show ?thesis by simp
  next
    case False
    then obtain st1 where 1: "st1 \<in> set (f st)" and m: "st' \<in> set (starIter n f st1)"
      using Suc.prems by (auto split: if_splits)
    show ?thesis using Suc.IH [OF m] step [OF 1] by simp
  qed
qed

lemma capFree_caps:
  "capFree r \<Longrightarrow> st' \<in> set (rmatch r st) \<Longrightarrow> snd (snd st') = snd (snd st)"
proof (induction r arbitrary: st st')
  case (Star r)
  have "st' \<in> set (starIter (length (fst (snd st))) (rmatch r) st)"
    using Star.prems(2) by simp
  moreover have "\<And>a b. b \<in> set (rmatch r a) \<Longrightarrow> snd (snd b) = snd (snd a)"
    using Star.IH Star.prems(1) by simp
  ultimately show ?case by (rule starIter_caps [of "rmatch r", rotated])
next
  case (Seq r1 r2)
  obtain st1 where 1: "st1 \<in> set (rmatch r1 st)" and 2: "st' \<in> set (rmatch r2 st1)"
    using Seq.prems(2) unfolding rmatch_Seq by blast
  show ?case using Seq.IH(1) [OF _ 1] Seq.IH(2) [OF _ 2] Seq.prems(1) by simp
next
  case (Alt r1 r2)
  have "st' \<in> set (rmatch r1 st) \<or> st' \<in> set (rmatch r2 st)"
    using Alt.prems(2) by simp
  then show ?case
  proof
    assume m: "st' \<in> set (rmatch r1 st)"
    show ?thesis using Alt.IH(1) [OF _ m] Alt.prems(1) by simp
  next
    assume m: "st' \<in> set (rmatch r2 st)"
    show ?thesis using Alt.IH(2) [OF _ m] Alt.prems(1) by simp
  qed
next
  case (Opt r)
  have "st' \<in> set (rmatch r st) \<or> st' = st" using Opt.prems(2) by auto
  then show ?case
  proof
    assume m: "st' \<in> set (rmatch r st)"
    show ?thesis using Opt.IH [OF _ m] Opt.prems(1) by simp
  next
    assume "st' = st"
    then show ?thesis by simp
  qed
next
  case (Lit l)
  then show ?case by (cases st) (auto simp add: matchLit_def split: if_splits)
next
  case Space
  then show ?case by (cases st) (auto simp add: matchChar_def split: list.splits if_splits)
next
  case Digit
  then show ?case by (cases st) (auto simp add: matchChar_def split: list.splits if_splits)
next
  case (OneOf cs)
  then show ?case by (cases st) (auto simp add: matchChar_def split: list.splits if_splits)
next
  case (SpaceOr cs)
  then show ?case by (cases st) (auto simp add: matchChar_def split: list.splits if_splits)
next
  case Bol
  then show ?case by (auto split: if_splits)
next
  case WordB
  then show ?case by (cases st) (auto simp add: Let_def split: if_splits)
next
  case (Cap k r)
  then show ?case by simp
qed

lemma rmatch_Digit:
  "st' \<in> set (rmatch Digit st)
   \<Longrightarrow> \<exists>c. isDigit c \<and> fst (snd st) = c # fst (snd st') \<and> snd (snd st') = snd (snd st)"
  by (auto simp add: matchChar_def split: list.splits if_splits)

lemma starIter_digits:
  assumes step: "\<And>st st'. st' \<in> set (f st)
    \<Longrightarrow> \<exists>c. isDigit c \<and> fst (snd st) = c # fst (snd st') \<and> snd (snd st') = snd (snd st)"
  shows "st' \<in> set (starIter n f st)
   \<Longrightarrow> \<exists>ds. fst (snd st) = ds @ fst (snd st') \<and> list_all isDigit ds
          \<and> snd (snd st') = snd (snd st)"
proof (induction n arbitrary: st)
  case 0
  then show ?case by simp
next
  case (Suc n)
  show ?case
  proof (cases "st' = st")
    case True
    then show ?thesis by simp
  next
    case False
    then obtain st1 where 1: "st1 \<in> set (f st)" and m: "st' \<in> set (starIter n f st1)"
      using Suc.prems by (auto split: if_splits)
    from step [OF 1] obtain c where c: "isDigit c" "fst (snd st) = c # fst (snd st1)"
      "snd (snd st1) = snd (snd st)" by blast
    from Suc.IH [OF m] obtain ds where ds: "fst (snd st1) = ds @ fst (snd st')"
      "list_all isDigit ds" "snd (snd st') = snd (snd st1)" by blast
    have "fst (snd st) = (c # ds) @ fst (snd st') \<and> list_all isDigit (c # ds)
        \<and> snd (snd st') = snd (snd st)"
      using c ds by simp
    then show ?thesis by blast
  qed
qed

lemma plusDigit_digits:
  assumes "st' \<in> set (rmatch (Plus Digit) st)"
  shows "\<exists>ds. ds \<noteq> [] \<and> fst (snd st) = ds @ fst (snd st') \<and> list_all isDigit ds
          \<and> snd (snd st') = snd (snd st)"
proof -
  obtain st1 where 1: "st1 \<in> set (rmatch Digit st)"
    and m: "st' \<in> set (starIter (length (fst (snd st1))) (rmatch Digit) st1)"
    using assms unfolding Plus_def rmatch_Seq by (auto simp del: rmatch.simps(3))
  from rmatch_Digit [OF 1] obtain c where c: "isDigit c" "fst (snd st) = c # fst (snd st1)"
    "snd (snd st1) = snd (snd st)" by blast
  from starIter_digits [of "rmatch Digit", OF rmatch_Digit m]
  obtain ds where ds: "fst (snd st1) = ds @ fst (snd st')" "list_all isDigit ds"
    "snd (snd st') = snd (snd st1)" by blast
  have "c # ds \<noteq> [] \<and> fst (snd st) = (c # ds) @ fst (snd st') \<and> list_all isDigit (c # ds)
      \<and> snd (snd st') = snd (snd st)"
    using c ds by simp
  then show ?thesis by blast
qed

lemma durationPattern_digits:
  assumes "capFree unit"
    and "st' \<in> set (rmatch (Seqs [Cap 1 (Plus Digit), Star Space, Cap 2 unit]) (p, s, []))"
  shows "capture 1 (snd (snd st')) \<noteq> [] \<and> list_all isDigit (capture 1 (snd (snd st')))"
proof -
  have "st' \<in> set (rmatch (Seq (Cap 1 (Plus Digit)) (Seq (Star Space) (Cap 2 unit))) (p, s, []))"
    using assms(2) by simp
  then obtain st1 st2 where 1: "st1 \<in> set (rmatch (Cap 1 (Plus Digit)) (p, s, []))"
    and 2: "st2 \<in> set (rmatch (Star Space) st1)"
    and 3: "st' \<in> set (rmatch (Cap 2 unit) st2)"
    unfolding rmatch_Seq by blast
  obtain st0 where 0: "st0 \<in> set (rmatch (Plus Digit) (p, s, []))"
    and st1: "st1 = (fst st0, fst (snd st0),
        (1, take (length s - length (fst (snd st0))) s) # snd (snd st0))"
    using 1 unfolding rmatch_Cap by auto
  from plusDigit_digits [OF 0] obtain ds where ds: "ds \<noteq> []" "s = ds @ fst (snd st0)"
    "list_all isDigit ds" "snd (snd st0) = []" by auto
  have c1: "snd (snd st1) = [(1, ds)]" using st1 ds by simp
  have c2: "snd (snd st2) = [(1, ds)]" using capFree_caps [OF _ 2] c1 by simp
  obtain st3 where 4: "st3 \<in> set (rmatch unit st2)"
    and st': "\<exists>g. snd (snd st') = (2, g) # snd (snd st3)"
    using 3 unfolding rmatch_Cap by auto
  have "snd (snd st3) = [(1, ds)]" using capFree_caps [OF assms(1) 4] c2 by simp
  then have "capture 1 (snd (snd st')) = ds" using st' by (auto simp add: capture_def)
  then show ?thesis using ds by simp
qed

lemma search_rmatch:
  "search r prev s i = Some (j, rest, caps)
   \<Longrightarrow> \<exists>p s' q. (q, rest, caps) \<in> set (rmatch r (p, s', []))"
proof (induction s arbitrary: prev i)
  case Nil
  show ?case
  proof (cases "rmatch r (prev, [], [])")
    case Nil
    then show ?thesis using Nil.prems by simp
  next
    case (Cons m ms)
    then have "(fst m, rest, caps) \<in> set (rmatch r (prev, [], []))"
      using Nil.prems by (auto split: prod.splits)
    then show ?thesis by blast
  qed
next
  case (Cons c cs)
  show ?case
  proof (cases "rmatch r (prev, c # cs, [])")
    case Nil
    then show ?thesis using Cons.IH Cons.prems by simp
  next
    case (Cons m ms)
    then have "(fst m, rest, caps) \<in> set (rmatch r (prev, c # cs, []))"
      using Cons.prems by (auto split: prod.splits)
    then show ?thesis by blast
  qed
qed

lemma secondsPattern_digits:
  assumes "exec secondsPattern s = Some (index, rest, caps)"
  shows "capture 1 caps \<noteq> [] \<and> list_all isDigit (capture 1 caps)"
proof -
  obtain p s' q where "(q, rest, caps) \<in> set (rmatch secondsPattern (p, s', []))"
    using assms search_rmatch unfolding exec_def by blast
  from durationPattern_digits [OF _ this [unfolded secondsPattern_def]]
  show ?thesis by simp
qed

lemma minutesPattern_digits:
  assumes "exec minutesPattern s = Some (index, rest, caps)"
  shows "capture 1 caps \<noteq> [] \<and> list_all isDigit (capture 1 caps)"
proof -
  obtain p s' q where "(q, rest, caps) \<in> set (rmatch minutesPattern (p, s', []))"
    using assms search_rmatch unfolding exec_def by blast
  from durationPattern_digits [OF _ this [unfolded minutesPattern_def]]
  show ?thesis by simp
qed

lemma digit_value: "isDigit c \<Longrightarrow> 48 \<le> (of_char c :: int)"
proof -
  assume "isDigit c"
  then have "int 48 \<le> int (of_char c)" unfolding isDigit_def by linarith
  then show ?thesis by (simp only: of_nat_of_char of_nat_numeral)
qed

lemma foldl_digits:
  "list_all isDigit ds \<Longrightarrow> 0 \<le> n
   \<Longrightarrow> 0 \<le> foldl (\<lambda>n c. 10 * n + (of_char c - 48)) (n :: int) ds"
proof (induction ds arbitrary: n)
  case Nil
  then show ?case by simp
next
  case (Cons c cs)
  have "48 \<le> (of_char c :: int)" using Cons.prems(1) digit_value by simp
  then have "0 \<le> 10 * n + (of_char c - 48)" using Cons.prems(2) by linarith
  then show ?case using Cons.IH [of "10 * n + (of_char c - 48)"] Cons.prems(1) by simp
qed

lemma mathInt_digits: "list_all isDigit ds \<Longrightarrow> 0 \<le> mathInt ds"
  unfolding mathInt_def by (rule foldl_digits) simp_all

text \<open>Below \<open>2 ^ 53\<close> the arithmetic of doubles is exact.\<close>

lemma ulp_below: "n < 9007199254740992 \<Longrightarrow> ulp n = 1"
  by (simp add: ulp.simps)

lemma toDouble_exact: "n < 9007199254740992 \<Longrightarrow> toDouble n = Finite n"
  by (simp add: toDouble_def ulp_below)

lemma multiply_exact:
  assumes "0 < k" and "n * k < 9007199254740992"
  shows "multiply (toDouble n) k = Finite (n * k)"
proof -
  have "n < 9007199254740992"
  proof (cases "n \<le> 0")
    case True
    then show ?thesis by simp
  next
    case False
    then have "n * 1 \<le> n * k" using assms(1) by (intro mult_left_mono) simp_all
    then show ?thesis using assms(2) by simp
  qed
  then show ?thesis using assms(2) by (simp add: multiply_def toDouble_exact)
qed

lemma speakers_all: "set (ts :: SpeakerId list) \<subseteq> {You, Claude, Guest}"
proof
  fix x assume "x \<in> set ts"
  show "x \<in> {You, Claude, Guest}" by (cases x) simp_all
qed

lemma route_result:
  assumes "fst (route this now s previous) = Some r"
  shows "0 \<le> confidence r \<and> confidence r \<le> 1
     \<and> durationMs r
         = (if action r = Thinking then Some (extractDuration (remainder r)) else None)"
proof -
  let ?n = "toLowerCase (trim s)"
  let ?ctx = "case previous of Some p \<Rightarrow> p\<lparr> ctx_timestamp := now \<rparr> | None \<Rightarrow> this"
  have ne: "trim s \<noteq> []" using assms by (auto simp add: route_def Let_def)
  show ?thesis
  proof (cases "detectBargeInControl ?ctx ?n")
    case (Some b)
    then have "r = b" using assms ne by (simp add: route_def Let_def)
    then show ?thesis using detectBargeInControl_result [OF Some] by simp
  next
    case None
    note nb = None
    show ?thesis
    proof (cases "detectDuckingControl ?ctx ?n")
      case (Some d)
      then have "r = d" using assms ne nb by (simp add: route_def Let_def)
      then show ?thesis using detectDuckingControl_result [OF Some] by simp
    next
      case None
      note nd = None
      show ?thesis
      proof (cases "extractAddress ?n")
        case None
        then show ?thesis
          using assms ne nb nd
          by (auto simp add: route_def Let_def split: if_splits)
      next
        case (Some a)
        then show ?thesis
          using assms ne nb nd extractAddress_confidence [OF Some]
          by (auto simp add: route_def Let_def split: if_splits)
      qed
    qed
  qed
qed

lemma route_clock:
  "fst (route this now s None) = fst (route this now' s None)"
  by (simp add: route_def Let_def split: option.splits)

lemma extractDuration_cases:
  "extractDuration s =
     (case exec secondsPattern s of
        Some (index, rest, caps) \<Rightarrow>
          (let n = mathInt (capture 1 caps)
           in if n * 1000 < 9007199254740992 then Finite (n * 1000)
              else multiply (toDouble n) 1000)
      | None \<Rightarrow>
          (case exec minutesPattern s of
             Some (index, rest, caps) \<Rightarrow>
               (let n = mathInt (capture 1 caps)
                in if n * 60000 < 9007199254740992 then Finite (n * 60000)
                   else multiply (toDouble n) 60000)
           | None \<Rightarrow>
               if test quickPausePattern s then Finite 10000
               else if test longPausePattern s then Finite 60000
               else Finite 30000))"
  by (simp add: extractDuration_def parseInt_def Let_def multiply_exact split: option.splits)

text \<open>
  C4 (amended). Routing a text through a router with empty context gives a decision that
  does not depend on the clock; its confidence lies in [0, 1], its targets are among human,
  host and guest, and it has a duration exactly when its action is thinking. That duration
  is: when the remainder names a number \<open>n\<close> of seconds, \<open>n\<close> times 1,000, and otherwise when
  it names a number \<open>n\<close> of minutes, \<open>n\<close> times 60,000, both exactly as long as the product is
  below \<open>2 ^ 53\<close> and rounded as doubles are beyond; otherwise 10,000 for a quick, brief or short
  moment, pause or beat, 60,000 for a long one, and 30,000. So it is at least 10,000 unless
  a number of seconds below ten, or zero minutes, is named.
\<close>

theorem route_decision:
  "(case fst (route (emptyContext t0) now s None) of
      None \<Rightarrow> True
    | Some r \<Rightarrow>
        0 \<le> confidence r \<and> confidence r \<le> 1
        \<and> set (targets r) \<subseteq> {You, Claude, Guest}
        \<and> durationMs r =
            (if action r = Thinking then
               Some
                 (case exec secondsPattern (remainder r) of
                    Some (index, rest, caps) \<Rightarrow>
                      (let n = mathInt (capture 1 caps)
                       in if n * 1000 < 9007199254740992 then Finite (n * 1000)
                          else multiply (toDouble n) 1000)
                  | None \<Rightarrow>
                      (case exec minutesPattern (remainder r) of
                         Some (index, rest, caps) \<Rightarrow>
                           (let n = mathInt (capture 1 caps)
                            in if n * 60000 < 9007199254740992 then Finite (n * 60000)
                               else multiply (toDouble n) 60000)
                       | None \<Rightarrow>
                           if test quickPausePattern (remainder r) then Finite 10000
                           else if test longPausePattern (remainder r) then Finite 60000
                           else Finite 30000))
             else None))
   \<and> fst (route (emptyContext t0) now s None) = fst (route (emptyContext t0) now' s None)"
proof (cases "fst (route (emptyContext t0) now s None)")
  case None
  then show ?thesis using route_clock [of "emptyContext t0" now s now'] by simp
next
  case (Some r)
  have "durationMs r
      = (if action r = Thinking then Some (extractDuration (remainder r)) else None)"
    using route_result [OF Some] by simp
  then show ?thesis
    using Some route_result [OF Some] speakers_all [of "targets r"]
      route_clock [of "emptyContext t0" now s now']
    by (simp add: extractDuration_cases [symmetric])
qed

text \<open>
  C4 as stated fails for a text that names a short duration: "wait 5 seconds" is routed to
  the host as a thinking command of 5,000 ms.
\<close>

theorem short_explicit_duration:
  "map_option (\<lambda>r. (action r, durationMs r, targets r))
     (fst (route (emptyContext 0) 1 ''wait 5 seconds'' None))
   = Some (Thinking, Some (Finite 5000), [Claude])"
  by code_simp

text \<open>
  A product from \<open>2 ^ 53\<close> on is rounded: twenty nines denote \<open>10 ^ 20 - 1\<close>, which as a double
  is \<open>10 ^ 20\<close>, and 1,000 times that is the double next to \<open>10 ^ 23\<close>.
\<close>

lemma long_explicit_duration_rounded:
  "map_option (\<lambda>r. (action r, durationMs r, targets r))
     (fst (route (emptyContext 0) 1 ''wait 99999999999999999999 seconds'' None))
   = Some (Thinking, Some (Finite 99999999999999991611392), [Claude])"
  by code_simp

end
